theory Spec2Isabelle
  imports Main "HOL-Library.Word" "HOL-Library.Sublist" "HOL-Library.Monad_Syntax"
begin

section \<open>JavaScript strings\<close>

text \<open>
  A JavaScript string is a finite sequence of 16-bit code units. The literals of
  \<^verbatim>\<open>MoveAI.ts\<close> that are plain ASCII are written as HOL strings and converted with
  \<open>js\<close>; a template literal spanning several source lines is the list of its lines,
  joined with the line feed by \<open>lines\<close>.
\<close>

type_synonym jschar = "16 word"
type_synonym jsstring = "jschar list"

definition js :: "string \<Rightarrow> jsstring" where
  "js s = map of_char s"

fun lines :: "string list \<Rightarrow> string" where
  "lines [] = []"
| "lines [l] = l"
| "lines (l # m # ls) = l @ CHR 0x0A # lines (m # ls)"

text \<open>
  \<^verbatim>\<open>String.prototype.includes\<close>: the argument occurs as a contiguous run of code units,
  searched from position 0.
\<close>

fun str_includes :: "'a list \<Rightarrow> 'a list \<Rightarrow> bool" where
  "str_includes [] kw = (kw = [])"
| "str_includes (c # cs) kw = (prefix kw (c # cs) \<or> str_includes cs kw)"


text \<open>
  \<^verbatim>\<open>String.prototype.toLowerCase\<close>. The ASCII capitals move to their small letters.
  Of the code points outside ASCII, exactly two have a lower-case form that contains an
  ASCII letter: the Kelvin sign U+212A (to \<open>k\<close>) and the capital I with dot above U+0130
  (to \<open>i\<close> followed by the combining dot U+0307); both are modelled. Every other code unit
  is kept: the runtime maps those to code units outside ASCII again, and the program
  only ever searches the lower-cased text for ASCII keywords.
\<close>

definition lowerUnit :: "jschar \<Rightarrow> jsstring" where
  "lowerUnit c =
     (if 0x41 \<le> c \<and> c \<le> 0x5A then [c + 0x20]
      else if c = 0x212A then [0x6B]
      else if c = 0x130 then [0x69, 0x307]
      else [c])"

definition toLowerCase :: "jsstring \<Rightarrow> jsstring" where
  "toLowerCase s = concat (map lowerUnit s)"

section \<open>The template library\<close>

text \<open>
  \<^verbatim>\<open>Record<string, string>\<close> is a finite map from property names to strings. The
  expression \<^verbatim>\<open>params.name || "MyToken"\<close> takes the default when the property is absent
  (\<^verbatim>\<open>undefined\<close>) or the empty string, the two falsy cases of that type.
\<close>

type_synonym params = "jsstring \<rightharpoonup> jsstring"

definition orDefault :: "jsstring option \<Rightarrow> jsstring \<Rightarrow> jsstring" where
  "orDefault v d = (case v of None \<Rightarrow> d | Some s \<Rightarrow> if s = [] then d else s)"

text \<open>
  Each generator returns a template literal that starts with
  \<^verbatim>\<open>module ${address}::${moduleName}\<close>; the text after the two interpolations is a
  constant, kept here line by line as in the source.
\<close>

definition moduleLines :: "string list" where
  "moduleLines =
    ['' {'',
     ''    use std::signer;'',
     '''',
     ''    const E_NOT_AUTHORIZED: u64 = 1;'',
     '''',
     ''    struct Data has key {'',
     ''        value: u64'',
     ''    }'',
     '''',
     ''    public fun initialize(account: &signer) {'',
     ''        let account_addr = signer::address_of(account);'',
     ''        move_to(account, Data { value: 0 });'',
     ''    }'',
     '''',
     ''    public fun update_value(account: &signer, new_value: u64) acquires Data {'',
     ''        let account_addr = signer::address_of(account);'',
     ''        let data = borrow_global_mut<Data>(account_addr);'',
     ''        data.value = new_value;'',
     ''    }'',
     '''',
     ''    public fun get_value(account_addr: address): u64 acquires Data {'',
     ''        borrow_global<Data>(account_addr).value'',
     ''    }'',
     ''}'']"

definition generateModule :: "params \<Rightarrow> jsstring" where
  "generateModule p =
     (let moduleName = orDefault (p (js ''name'')) (js ''MyModule'');
          address = orDefault (p (js ''address'')) (js ''0x1'')
      in js ''module '' @ address @ js ''::'' @ moduleName @ js (lines moduleLines))"

text \<open>
  The Token template; the lines of its \<^verbatim>\<open>transfer\<close> function (source lines 160 to 177)
  are named on their own.
\<close>

definition tokenHead :: "string list" where
  "tokenHead =
    ['' {'',
     ''    use std::signer;'',
     ''    use std::string::String;'',
     '''',
     ''    const E_NOT_INITIALIZED: u64 = 1;'',
     ''    const E_ALREADY_INITIALIZED: u64 = 2;'',
     ''    const E_INSUFFICIENT_BALANCE: u64 = 3;'',
     '''',
     ''    struct TokenInfo has key {'',
     ''        name: String,'',
     ''        symbol: String,'',
     ''        decimals: u8,'',
     ''        total_supply: u64'',
     ''    }'',
     '''',
     ''    struct Balance has key {'',
     ''        value: u64'',
     ''    }'',
     '''',
     ''    public fun initialize('',
     ''        account: &signer,'',
     ''        name: String,'',
     ''        symbol: String,'',
     ''        decimals: u8,'',
     ''        initial_supply: u64'',
     ''    ) {'',
     ''        let account_addr = signer::address_of(account);'',
     ''        assert!(!exists<TokenInfo>(account_addr), E_ALREADY_INITIALIZED);'',
     '''',
     ''        move_to(account, TokenInfo {'',
     ''            name,'',
     ''            symbol,'',
     ''            decimals,'',
     ''            total_supply: initial_supply'',
     ''        });'',
     '''',
     ''        move_to(account, Balance {'',
     ''            value: initial_supply'',
     ''        });'',
     ''    }'',
     '''']"

definition transferLines :: "string list" where
  "transferLines =
    [''    public entry fun transfer('',
     ''        from: &signer,'',
     ''        to: address,'',
     ''        amount: u64'',
     ''    ) acquires Balance {'',
     ''        let from_addr = signer::address_of(from);'',
     ''        let from_balance = borrow_global_mut<Balance>(from_addr);'',
     ''        '',
     ''        assert!(from_balance.value >= amount, E_INSUFFICIENT_BALANCE);'',
     ''        from_balance.value = from_balance.value - amount;'',
     '''',
     ''        if (!exists<Balance>(to)) {'',
     ''            move_to(from, Balance { value: 0 });'',
     ''        };'',
     '''',
     ''        let to_balance = borrow_global_mut<Balance>(to);'',
     ''        to_balance.value = to_balance.value + amount;'',
     ''    }'']"

definition tokenTail :: "string list" where
  "tokenTail =
    ['''',
     ''    public fun balance_of(account: address): u64 acquires Balance {'',
     ''        assert!(exists<Balance>(account), E_NOT_INITIALIZED);'',
     ''        borrow_global<Balance>(account).value'',
     ''    }'',
     ''}'']"

definition generateTokenContract :: "params \<Rightarrow> jsstring" where
  "generateTokenContract p =
     (let moduleName = orDefault (p (js ''name'')) (js ''MyToken'');
          address = orDefault (p (js ''address'')) (js ''0x1'')
      in js ''module '' @ address @ js ''::'' @ moduleName
         @ js (lines (tokenHead @ transferLines @ tokenTail)))"

definition nftLines :: "string list" where
  "nftLines =
    ['' {'',
     ''    use std::signer;'',
     ''    use std::string::String;'',
     ''    use std::vector;'',
     '''',
     ''    const E_NOT_OWNER: u64 = 1;'',
     ''    const E_TOKEN_NOT_FOUND: u64 = 2;'',
     '''',
     ''    struct NFTCollection has key {'',
     ''        tokens: vector<NFT>,'',
     ''        next_id: u64'',
     ''    }'',
     '''',
     ''    struct NFT has store, drop {'',
     ''        id: u64,'',
     ''        name: String,'',
     ''        description: String,'',
     ''        uri: String,'',
     ''        owner: address'',
     ''    }'',
     '''',
     ''    public fun initialize_collection(account: &signer) {'',
     ''        let account_addr = signer::address_of(account);'',
     ''        '',
     ''        move_to(account, NFTCollection {'',
     ''            tokens: vector::empty<NFT>(),'',
     ''            next_id: 0'',
     ''        });'',
     ''    }'',
     '''',
     ''    public entry fun mint_nft('',
     ''        account: &signer,'',
     ''        name: String,'',
     ''        description: String,'',
     ''        uri: String'',
     ''    ) acquires NFTCollection {'',
     ''        let account_addr = signer::address_of(account);'',
     ''        let collection = borrow_global_mut<NFTCollection>(account_addr);'',
     ''        '',
     ''        let new_nft = NFT {'',
     ''            id: collection.next_id,'',
     ''            name,'',
     ''            description,'',
     ''            uri,'',
     ''            owner: account_addr'',
     ''        };'',
     '''',
     ''        vector::push_back(&mut collection.tokens, new_nft);'',
     ''        collection.next_id = collection.next_id + 1;'',
     ''    }'',
     '''',
     ''    public fun get_nft_count(account: address): u64 acquires NFTCollection {'',
     ''        let collection = borrow_global<NFTCollection>(account);'',
     ''        vector::length(&collection.tokens)'',
     ''    }'',
     ''}'']"

definition generateNFTContract :: "params \<Rightarrow> jsstring" where
  "generateNFTContract p =
     (let moduleName = orDefault (p (js ''name'')) (js ''MyNFT'');
          address = orDefault (p (js ''address'')) (js ''0x1'')
      in js ''module '' @ address @ js ''::'' @ moduleName @ js (lines nftLines))"

text \<open>The Marketplace template interpolates the address a second time, after \<^verbatim>\<open>(@\<close>.\<close>

definition marketplaceLines1 :: "string list" where
  "marketplaceLines1 =
    ['' {'',
     ''    use std::signer;'',
     ''    use std::vector;'',
     '''',
     ''    const E_LISTING_NOT_FOUND: u64 = 1;'',
     ''    const E_INSUFFICIENT_PAYMENT: u64 = 2;'',
     ''    const E_NOT_SELLER: u64 = 3;'',
     '''',
     ''    struct Listing has store, drop {'',
     ''        id: u64,'',
     ''        seller: address,'',
     ''        price: u64,'',
     ''        item_id: u64,'',
     ''        active: bool'',
     ''    }'',
     '''',
     ''    struct MarketplaceData has key {'',
     ''        listings: vector<Listing>,'',
     ''        next_listing_id: u64'',
     ''    }'',
     '''',
     ''    public fun initialize(account: &signer) {'',
     ''        move_to(account, MarketplaceData {'',
     ''            listings: vector::empty<Listing>(),'',
     ''            next_listing_id: 0'',
     ''        });'',
     ''    }'',
     '''',
     ''    public entry fun create_listing('',
     ''        seller: &signer,'',
     ''        item_id: u64,'',
     ''        price: u64'',
     ''    ) acquires MarketplaceData {'',
     ''        let seller_addr = signer::address_of(seller);'',
     ''        let marketplace = borrow_global_mut<MarketplaceData>(@'']"

definition marketplaceLines2 :: "string list" where
  "marketplaceLines2 =
    ['');'',
     ''        '',
     ''        let listing = Listing {'',
     ''            id: marketplace.next_listing_id,'',
     ''            seller: seller_addr,'',
     ''            price,'',
     ''            item_id,'',
     ''            active: true'',
     ''        };'',
     '''',
     ''        vector::push_back(&mut marketplace.listings, listing);'',
     ''        marketplace.next_listing_id = marketplace.next_listing_id + 1;'',
     ''    }'',
     ''}'']"

definition generateMarketplace :: "params \<Rightarrow> jsstring" where
  "generateMarketplace p =
     (let moduleName = orDefault (p (js ''name'')) (js ''Marketplace'');
          address = orDefault (p (js ''address'')) (js ''0x1'')
      in js ''module '' @ address @ js ''::'' @ moduleName @ js (lines marketplaceLines1)
         @ address @ js (lines marketplaceLines2))"

section \<open>The intent classifier\<close>

text \<open>
  \<open>generateCode\<close> lower-cases the intent and takes the first branch whose keyword the
  lower-cased text includes. The parameter mapping defaults to the empty object: a call
  without it is a call with \<open>Map.empty\<close>.
\<close>

definition fallback :: jsstring where
  "fallback = js (''// Unable to generate code. Try: 'create a token', 'create an nft', 'create a marketplace'' @ [CHR 0x27])"

definition generateCode :: "jsstring \<Rightarrow> params \<Rightarrow> jsstring" where
  "generateCode intent p =
     (let intentLower = toLowerCase intent in
      if str_includes intentLower (js ''token'') \<or> str_includes intentLower (js ''coin'')
        then generateTokenContract p
      else if str_includes intentLower (js ''nft'') then generateNFTContract p
      else if str_includes intentLower (js ''marketplace'') then generateMarketplace p
      else if str_includes intentLower (js ''module'') then generateModule p
      else fallback)"

section \<open>The concept glossary\<close>

definition abilitiesLines :: "string list" where
  "abilitiesLines =
    [''Move Abilities:'',
     ''- key: Can be stored in global storage'',
     ''- store: Can be stored inside other structs'',
     ''- copy: Can be copied'',
     ''- drop: Can be dropped/destroyed'',
     '''',
     ''Example: struct MyResource has key, store { ... }'']"

definition resourcesLines :: "string list" where
  "resourcesLines =
    [''Move Resources:'',
     ''- Structs with the 'key' ability'',
     ''- Can be stored in global storage'',
     ''- Cannot be copied or dropped (linear types)'',
     ''- Accessed with move_to(), borrow_global(), exists()'']"

definition acquiresLines :: "string list" where
  "acquiresLines =
    [''Acquires Keyword:'',
     ''Functions that access global storage must declare which resources they acquire.'',
     '''',
     ''Example:'',
     ''public fun transfer() acquires Balance {'',
     ''    let balance = borrow_global_mut<Balance>(addr);'',
     ''}'']"

definition signerLines :: "string list" where
  "signerLines =
    [''Signer Type:'',
     ''- Represents transaction sender authority'',
     ''- Cannot be copied or stored'',
     ''- Used to prove ownership/authorization'',
     ''- Common pattern: signer::address_of(&signer)'']"

text \<open>
  \<^verbatim>\<open>Object.entries\<close> lists the four string keys in the order in which the object
  literal wrote them, so the glossary is an association list in source order.
\<close>

definition explanations :: "(jsstring \<times> jsstring) list" where
  "explanations =
     [(js ''abilities'', js (lines abilitiesLines)),
      (js ''resources'', js (lines resourcesLines)),
      (js ''acquires'', js (lines acquiresLines)),
      (js ''signer'', js (lines signerLines))]"

definition notFound :: jsstring where
  "notFound = js ''Concept not found. Available: abilities, resources, acquires, signer''"

text \<open>The \<^verbatim>\<open>for ... of\<close> loop returns at the first key the concept contains.\<close>

fun explainLoop :: "jsstring \<Rightarrow> (jsstring \<times> jsstring) list \<Rightarrow> jsstring" where
  "explainLoop conceptLower [] = notFound"
| "explainLoop conceptLower ((key, explanation) # es) =
     (if str_includes conceptLower key then explanation else explainLoop conceptLower es)"

definition explainConcept :: "jsstring \<Rightarrow> jsstring" where
  "explainConcept concept = explainLoop (toLowerCase concept) explanations"

section \<open>The code reviewer\<close>

text \<open>
  The four messages start with a symbol outside ASCII: the warning sign U+26A0 with the
  variation selector U+FE0F, the light bulb U+1F4A1 (the surrogate pair D83D DCA1) and
  the check mark U+2705.
\<close>

definition warnAcquires :: jsstring where
  "warnAcquires = [0x26A0, 0xFE0F]
     @ js (''  Functions using borrow_global must declare 'acquires'' @ [CHR 0x27])"

definition warnKey :: jsstring where
  "warnKey = [0x26A0, 0xFE0F] @ js ''  Resources moved to storage need 'key' ability''"

definition suggestConstants :: jsstring where
  "suggestConstants = [0xD83D, 0xDCA1] @ js '' Consider defining error constants''"

definition noIssues :: jsstring where
  "noIssues = [0x2705] @ js '' No obvious issues found!''"

definition reviewCode :: "jsstring \<Rightarrow> jsstring list" where
  "reviewCode code =
     (let issues0 = [];
          issues1 = (if str_includes code (js ''borrow_global'') \<and> \<not> str_includes code (js ''acquires'')
                     then issues0 @ [warnAcquires] else issues0);
          issues2 = (if str_includes code (js ''move_to'') \<and> str_includes code (js ''struct'')
                     then (if \<not> str_includes code (js ''has key'') then issues1 @ [warnKey] else issues1)
                     else issues1);
          issues3 = (if \<not> str_includes code (js ''const E_'')
                     then issues2 @ [suggestConstants] else issues2)
      in if length issues3 = 0 then [noIssues] else issues3)"

section \<open>The context extractor\<close>

subsection \<open>The three regular expressions\<close>

text \<open>
  \<^verbatim>\<open>\s\<close> is the white space and the line terminators of ECMAScript, \<^verbatim>\<open>\w\<close> is
  \<^verbatim>\<open>[A-Za-z0-9_]\<close> (the expressions have neither the \<^verbatim>\<open>i\<close> nor the \<^verbatim>\<open>u\<close> flag).
\<close>

definition isSpace :: "jschar \<Rightarrow> bool" where
  "isSpace c \<longleftrightarrow>
     (0x09 \<le> c \<and> c \<le> 0x0D) \<or> c = 0x20 \<or> c = 0xA0 \<or> c = 0x1680
     \<or> (0x2000 \<le> c \<and> c \<le> 0x200A) \<or> c = 0x2028 \<or> c = 0x2029 \<or> c = 0x202F
     \<or> c = 0x205F \<or> c = 0x3000 \<or> c = 0xFEFF"

definition isWord :: "jschar \<Rightarrow> bool" where
  "isWord c \<longleftrightarrow>
     (0x41 \<le> c \<and> c \<le> 0x5A) \<or> (0x61 \<le> c \<and> c \<le> 0x7A) \<or> (0x30 \<le> c \<and> c \<le> 0x39) \<or> c = 0x5F"

text \<open>
  A matcher takes the text at the position tried and returns what is left after the
  part it matched. In each of the three expressions a greedy \<^verbatim>\<open>\s+\<close> or \<^verbatim>\<open>\w+\<close> is
  followed by something that cannot start with a character of its own class (or by
  nothing), so giving back characters never helps and the longest run is the only
  candidate.
\<close>

definition literal :: "string \<Rightarrow> jsstring \<Rightarrow> jsstring option" where
  "literal l s = (if prefix (js l) s then Some (drop (length l) s) else None)"

definition spaces1 :: "jsstring \<Rightarrow> jsstring option" where
  "spaces1 s = (if takeWhile isSpace s = [] then None else Some (dropWhile isSpace s))"

definition word1 :: "jsstring \<Rightarrow> (jsstring \<times> jsstring) option" where
  "word1 s = (if takeWhile isWord s = [] then None
              else Some (takeWhile isWord s, dropWhile isWord s))"

text \<open>
  Each expression returns its capture group 1 and the length of the whole match, by
  which \<^verbatim>\<open>lastIndex\<close> advances.
\<close>

definition moduleRegex :: "jsstring \<Rightarrow> (jsstring \<times> nat) option" where
  "moduleRegex s = do {
     r1 \<leftarrow> literal ''module'' s;
     r2 \<leftarrow> spaces1 r1;
     (w1, r3) \<leftarrow> word1 r2;
     r4 \<leftarrow> literal ''::'' r3;
     (w2, r5) \<leftarrow> word1 r4;
     Some (w1 @ js ''::'' @ w2, length s - length r5)
   }"

definition structRegex :: "jsstring \<Rightarrow> (jsstring \<times> nat) option" where
  "structRegex s = do {
     r1 \<leftarrow> literal ''struct'' s;
     r2 \<leftarrow> spaces1 r1;
     (w, r3) \<leftarrow> word1 r2;
     Some (w, length s - length r3)
   }"

text \<open>
  The optional group \<^verbatim>\<open>(?:public\s+)?\<close> is greedy: the match with the group is tried
  first, the match without it when that fails.
\<close>

definition funTail :: "jsstring \<Rightarrow> (jsstring \<times> jsstring) option" where
  "funTail s = do {
     r1 \<leftarrow> literal ''fun'' s;
     r2 \<leftarrow> spaces1 r1;
     word1 r2
   }"

definition funcRegex :: "jsstring \<Rightarrow> (jsstring \<times> nat) option" where
  "funcRegex s =
     (case do { r1 \<leftarrow> literal ''public'' s; r2 \<leftarrow> spaces1 r1; funTail r2 } of
        Some (w, r) \<Rightarrow> Some (w, length s - length r)
      | None \<Rightarrow>
          (case funTail s of
             Some (w, r) \<Rightarrow> Some (w, length s - length r)
           | None \<Rightarrow> None))"

subsection \<open>The exec loop\<close>

text \<open>
  \<^verbatim>\<open>while ((match = re.exec(code)) !== null)\<close> with a global expression: \<open>exec\<close> tries
  the positions from \<open>lastIndex\<close> on, left to right, and after a match continues behind
  it. The loop body pushes the capture unless the array already includes it. None of
  the three expressions matches the empty text, so the search ends at the end of the
  text.
\<close>

fun execLoop :: "(jsstring \<Rightarrow> (jsstring \<times> nat) option) \<Rightarrow> jsstring \<Rightarrow> jsstring list \<Rightarrow> jsstring list" where
  "execLoop re [] arr = arr"
| "execLoop re (c # cs) arr =
     (case re (c # cs) of
        None \<Rightarrow> execLoop re cs arr
      | Some (m1, len) \<Rightarrow>
          execLoop re (drop (len - 1) cs) (if m1 \<in> set arr then arr else arr @ [m1]))"

text \<open>
  The search of the module expression through a text \<open>pre\<close> that is followed by \<open>rest\<close>
  arrives at the start of \<open>rest\<close>: every match it finds on the way ends before \<open>rest\<close>
  begins (to state that a declaration is not swallowed by an earlier match).
\<close>

fun searchArrives :: "jsstring \<Rightarrow> jsstring \<Rightarrow> bool" where
  "searchArrives [] rest = True"
| "searchArrives (c # cs) rest =
     (case moduleRegex (c # cs @ rest) of
        None \<Rightarrow> searchArrives cs rest
      | Some (m1, len) \<Rightarrow> len \<le> length (c # cs) \<and> searchArrives (drop (len - 1) cs) rest)"

subsection \<open>Objects and references\<close>

text \<open>
  Arrays and objects are reference values in JavaScript: a variable or a field holds the
  address of the object, and \<^verbatim>\<open>push\<close> changes the array in place for every holder of that
  address. The store maps addresses to arrays of strings and to context objects; an
  address never allocated reads as the empty array.
\<close>

type_synonym ref = nat

record MoveContext =
  modules :: ref
  structs :: ref
  "functions" :: ref

record store =
  arrays :: "ref \<Rightarrow> jsstring list"
  contexts :: "ref \<Rightarrow> MoveContext"
  nextRef :: ref

record MoveCodeExample =
  pattern :: jsstring
  template :: jsstring
  description :: jsstring

record MoveAI =
  movePatterns :: "MoveCodeExample list"
  "context" :: ref

text \<open>The store of a program that has not allocated anything yet.\<close>

definition emptyStore :: store where
  "emptyStore = \<lparr>arrays = (\<lambda>r. []),
                  contexts = (\<lambda>r. \<lparr>modules = 0, structs = 0, functions = 0\<rparr>),
                  nextRef = 0\<rparr>"

definition new_MoveAI :: "store \<Rightarrow> MoveAI \<times> store" where
  "new_MoveAI h =
     (let m = nextRef h; s = m + 1; f = m + 2; c = m + 3 in
      (\<lparr>movePatterns =
          [\<lparr>pattern = js ''create_module'',
            template = js (lines [''module {{address}}::{{module_name}} {'',
                                  ''    use std::signer;'',
                                  ''    '',
                                  ''    // Module code here'',
                                  ''}'']),
            description = js ''Creates a basic Move module structure''\<rparr>,
           \<lparr>pattern = js ''create_struct'',
            template = js (lines [''struct {{struct_name}} has key, store {'',
                                  ''    {{fields}}'',
                                  ''}'']),
            description = js ''Creates a Move struct with abilities''\<rparr>],
        context = c\<rparr>,
       h\<lparr>arrays := (arrays h)(m := [], s := [], f := []),
         contexts := (contexts h)(c := \<lparr>modules = m, structs = s, functions = f\<rparr>),
         nextRef := m + 4\<rparr>))"

text \<open>One of the three loops of \<open>analyzeCode\<close>, on the array at address \<open>r\<close>.\<close>

definition pushMatches :: "(jsstring \<Rightarrow> (jsstring \<times> nat) option) \<Rightarrow> jsstring \<Rightarrow> ref \<Rightarrow> store \<Rightarrow> store" where
  "pushMatches re code r h = h\<lparr>arrays := (arrays h)(r := execLoop re code (arrays h r))\<rparr>"

definition analyzeCode :: "MoveAI \<Rightarrow> jsstring \<Rightarrow> store \<Rightarrow> store" where
  "analyzeCode this code h =
     (let h1 = pushMatches moduleRegex code (modules (contexts h (context this))) h;
          h2 = pushMatches structRegex code (structs (contexts h1 (context this))) h1;
          h3 = pushMatches funcRegex code (functions (contexts h2 (context this))) h2
      in h3)"

text \<open>\<open>getContext\<close> returns the field itself: the address of the context object.\<close>

definition getContext :: "MoveAI \<Rightarrow> ref" where
  "getContext this = context this"

text \<open>
  What a holder of the address \<open>r\<close> reads in the store \<open>h\<close>: the contents of the three
  arrays of the context object at \<open>r\<close>.
\<close>

definition readContext :: "store \<Rightarrow> ref \<Rightarrow> jsstring list \<times> jsstring list \<times> jsstring list" where
  "readContext h r =
     (arrays h (modules (contexts h r)),
      arrays h (structs (contexts h r)),
      arrays h (functions (contexts h r)))"

text \<open>The methods of the class as operations, and a sequence of calls on one instance.\<close>

datatype op =
    AnalyzeCode jsstring
  | GenerateCode jsstring params
  | ExplainConcept jsstring
  | ReviewCode jsstring
  | GetContext

datatype result = Void | Str jsstring | Strs "jsstring list" | Ref ref

fun call :: "MoveAI \<Rightarrow> op \<Rightarrow> store \<Rightarrow> result \<times> store" where
  "call this (AnalyzeCode code) h = (Void, analyzeCode this code h)"
| "call this (GenerateCode intent p) h = (Str (generateCode intent p), h)"
| "call this (ExplainConcept concept) h = (Str (explainConcept concept), h)"
| "call this (ReviewCode code) h = (Strs (reviewCode code), h)"
| "call this GetContext h = (Ref (getContext this), h)"

fun run :: "MoveAI \<Rightarrow> op list \<Rightarrow> store \<Rightarrow> store" where
  "run this [] h = h"
| "run this (x # xs) h = run this xs (snd (call this x h))"

section \<open>The generated transfer function\<close>

text \<open>
  The Move function that the Token template emits (\<open>transferLines\<close>), over the global
  storage of \<^verbatim>\<open>Balance\<close> resources. Move stores at most one resource of a type under an
  account address; \<^verbatim>\<open>borrow_global_mut\<close> aborts when the address holds none, \<^verbatim>\<open>move_to\<close>
  publishes under the address of the signer it is given and aborts when that address
  already holds one, \<^verbatim>\<open>assert!\<close> aborts with its code, and \<^verbatim>\<open>u64\<close> arithmetic aborts
  on overflow. An abort undoes the whole transaction, so the result is either the abort
  or the new storage. A signer is represented by its address.
\<close>

type_synonym address = nat

record Balance =
  "value" :: "64 word"

type_synonym global = "address \<rightharpoonup> Balance"

datatype abort = Abort "64 word" | MISSING_DATA | RESOURCE_ALREADY_EXISTS | ARITHMETIC_ERROR

definition E_INSUFFICIENT_BALANCE :: "64 word" where
  "E_INSUFFICIENT_BALANCE = 3"

definition move_to :: "address \<Rightarrow> Balance \<Rightarrow> global \<Rightarrow> abort + global" where
  "move_to signer b g = (if g signer \<noteq> None then Inl RESOURCE_ALREADY_EXISTS else Inr (g(signer \<mapsto> b)))"

definition transfer :: "address \<Rightarrow> address \<Rightarrow> 64 word \<Rightarrow> global \<Rightarrow> abort + global" where
  "transfer from to amount g =
     (let from_addr = from in
      case g from_addr of
        None \<Rightarrow> Inl MISSING_DATA
      | Some from_balance \<Rightarrow>
          if \<not> (value from_balance \<ge> amount) then Inl (Abort E_INSUFFICIENT_BALANCE)
          else
            let g1 = g(from_addr \<mapsto> from_balance\<lparr>value := value from_balance - amount\<rparr>) in
            case (if g1 to = None then move_to from \<lparr>value = 0\<rparr> g1 else Inr g1) of
              Inl e \<Rightarrow> Inl e
            | Inr g2 \<Rightarrow>
                (case g2 to of
                   None \<Rightarrow> Inl MISSING_DATA
                 | Some to_balance \<Rightarrow>
                     if 2 ^ 64 \<le> uint (value to_balance) + uint amount then Inl ARITHMETIC_ERROR
                     else Inr (g2(to \<mapsto> to_balance\<lparr>value := value to_balance + amount\<rparr>))))"

section \<open>Facts about strings\<close>

lemma str_includes_sublist: "str_includes s kw = sublist kw s"
  by (induction s) (simp_all add: sublist_Cons_right)

lemma toLowerCase_append: "toLowerCase (a @ b) = toLowerCase a @ toLowerCase b"
  by (simp add: toLowerCase_def)

lemma includes_any_case:
  "toLowerCase t = kw \<Longrightarrow> str_includes (toLowerCase (a @ t @ b)) kw"
  by (auto simp: toLowerCase_append str_includes_sublist)

lemma borrow_global_mut_includes:
  assumes "str_includes code (js ''borrow_global_mut'')"
  shows "str_includes code (js ''borrow_global'')"
proof -
  have "js ''borrow_global_mut'' = js ''borrow_global'' @ js ''_mut''"
    by (simp add: js_def)
  then have "sublist (js ''borrow_global'') (js ''borrow_global_mut'')"
    by (metis sublist_appendI append_Nil)
  with assms show ?thesis
    unfolding str_includes_sublist by (blast intro: sublist_order.order_trans)
qed

lemma prefix_map_inj: "inj f \<Longrightarrow> prefix (map f xs) (map f ys) = prefix xs ys"
proof (induction xs arbitrary: ys)
  case Nil
  show ?case by simp
next
  case (Cons x xs)
  then show ?case by (cases ys) (auto simp: inj_eq)
qed

lemma unat_js_char: "unat (of_char c :: jschar) = of_char c"
proof -
  have "(of_char c :: jschar) = of_nat (of_char c)" by (simp add: of_nat_of_char)
  moreover have "(of_char c :: nat) < 2 ^ 16"
    by (rule less_trans [OF nat_of_char_less_256]) simp
  ultimately show ?thesis by (simp add: unat_of_nat)
qed

lemma inj_js_char: "inj (of_char :: char \<Rightarrow> jschar)"
  by (rule injI) (metis unat_js_char of_char_eq_iff)

lemma str_includes_map_inj: "inj f \<Longrightarrow> str_includes (map f s) (map f kw) = str_includes s kw"
proof (induction s)
  case Nil
  show ?case by simp
next
  case (Cons c cs)
  have "prefix (map f kw) (map f (c # cs)) = prefix kw (c # cs)"
    using Cons.prems by (rule prefix_map_inj)
  with Cons show ?case by simp
qed

lemma str_includes_js: "str_includes (js s) (js kw) = str_includes s kw"
  unfolding js_def by (rule str_includes_map_inj [OF inj_js_char])

lemma sublist_lines: "l \<in> set ls \<Longrightarrow> sublist kw l \<Longrightarrow> sublist kw (lines ls)"
proof (induction ls rule: lines.induct)
  case 1
  then show ?case by simp
next
  case (2 l')
  then show ?case by simp
next
  case (3 l' m ls)
  show ?case
  proof (cases "l = l'")
    case True
    with "3.prems" show ?thesis by (simp add: sublist_append)
  next
    case False
    with "3.prems" have "l \<in> set (m # ls)" by simp
    then have "sublist kw (lines (m # ls))" using "3.prems"(2) by (rule "3.IH")
    then show ?thesis by (simp add: sublist_append sublist_Cons_right)
  qed
qed

lemma sublist_js: "sublist (js kw) (js s) = sublist kw s"
  using str_includes_js [of s kw] by (simp add: str_includes_sublist)

lemma line_in_output:
  assumes "l \<in> set ls" and "str_includes l kw"
  shows "sublist (js kw) (js (lines ls))"
  using assms by (simp add: str_includes_sublist sublist_lines sublist_js)








section \<open>Facts about the exec loop\<close>

lemma execLoop_prefix: "prefix arr (execLoop re code arr)"
proof (induction re code arr rule: execLoop.induct)
  case (1 re arr)
  show ?case by simp
next
  case (2 re c cs arr)
  show ?case
  proof (cases "re (c # cs)")
    case None
    with "2.IH"(1) show ?thesis by simp
  next
    case (Some a)
    obtain m1 len where a: "a = (m1, len)" by (cases a)
    have "prefix (if m1 \<in> set arr then arr else arr @ [m1])
            (execLoop re (drop (len - 1) cs) (if m1 \<in> set arr then arr else arr @ [m1]))"
      using "2.IH"(2) Some a by simp
    then have "prefix arr (execLoop re (drop (len - 1) cs) (if m1 \<in> set arr then arr else arr @ [m1]))"
      by (auto dest: append_prefixD)
    with Some a show ?thesis by simp
  qed
qed

lemma execLoop_distinct: "distinct arr \<Longrightarrow> distinct (execLoop re code arr)"
proof (induction re code arr rule: execLoop.induct)
  case (1 re arr)
  then show ?case by simp
next
  case (2 re c cs arr)
  show ?case
  proof (cases "re (c # cs)")
    case None
    with "2.IH"(1) "2.prems" show ?thesis by simp
  next
    case (Some a)
    obtain m1 len where a: "a = (m1, len)" by (cases a)
    have "distinct (if m1 \<in> set arr then arr else arr @ [m1])"
      using "2.prems" by simp
    then have "distinct (execLoop re (drop (len - 1) cs) (if m1 \<in> set arr then arr else arr @ [m1]))"
      using "2.IH"(2) Some a by simp
    with Some a show ?thesis by simp
  qed
qed

section \<open>Facts about the store\<close>

lemma pushMatches_contexts: "contexts (pushMatches re code r h) = contexts h"
  by (simp add: pushMatches_def)

lemma pushMatches_prefix: "prefix (arrays h r') (arrays (pushMatches re code r h) r')"
  by (simp add: pushMatches_def execLoop_prefix)

lemma pushMatches_distinct:
  "distinct (arrays h r') \<Longrightarrow> distinct (arrays (pushMatches re code r h) r')"
  by (auto simp: pushMatches_def execLoop_distinct)

lemma analyzeCode_contexts: "contexts (analyzeCode this code h) = contexts h"
  by (simp add: analyzeCode_def Let_def pushMatches_contexts)

lemma analyzeCode_prefix: "prefix (arrays h r) (arrays (analyzeCode this code h) r)"
  unfolding analyzeCode_def Let_def
  by (blast intro: prefix_order.trans pushMatches_prefix)

lemma analyzeCode_distinct:
  "distinct (arrays h r) \<Longrightarrow> distinct (arrays (analyzeCode this code h) r)"
  unfolding analyzeCode_def Let_def
  by (intro pushMatches_distinct)

lemma call_contexts: "contexts (snd (call this x h)) = contexts h"
  by (cases x) (simp_all add: analyzeCode_contexts)

lemma call_prefix: "prefix (arrays h r) (arrays (snd (call this x h)) r)"
  by (cases x) (simp_all add: analyzeCode_prefix)

lemma call_distinct: "distinct (arrays h r) \<Longrightarrow> distinct (arrays (snd (call this x h)) r)"
  by (cases x) (simp_all add: analyzeCode_distinct)

lemma run_contexts: "contexts (run this xs h) = contexts h"
  by (induction xs arbitrary: h) (simp_all add: call_contexts)

lemma run_prefix: "prefix (arrays h r) (arrays (run this xs h) r)"
proof (induction xs arbitrary: h)
  case Nil
  show ?case by simp
next
  case (Cons x xs)
  have "prefix (arrays h r) (arrays (snd (call this x h)) r)" by (rule call_prefix)
  also have "prefix \<dots> (arrays (run this xs (snd (call this x h))) r)" by (rule Cons.IH)
  finally show ?case by simp
qed

lemma run_distinct: "distinct (arrays h r) \<Longrightarrow> distinct (arrays (run this xs h) r)"
  by (induction xs arbitrary: h) (simp_all add: call_distinct)

lemma new_MoveAI_arrays:
  assumes "new_MoveAI h0 = (this, h)"
  shows "arrays h (modules (contexts h (context this))) = []"
    and "arrays h (structs (contexts h (context this))) = []"
    and "arrays h (functions (contexts h (context this))) = []"
    and "modules (contexts h (context this)) \<noteq> structs (contexts h (context this))"
    and "modules (contexts h (context this)) \<noteq> functions (contexts h (context this))"
    and "structs (contexts h (context this)) \<noteq> functions (contexts h (context this))"
  using assms by (auto simp: new_MoveAI_def Let_def)

section \<open>Facts about the module expression\<close>

lemma takeWhile_stop: "post = [] \<or> \<not> P (hd post) \<Longrightarrow> takeWhile P post = []"
  by (cases post) auto

lemma dropWhile_stop: "post = [] \<or> \<not> P (hd post) \<Longrightarrow> dropWhile P post = post"
  by (cases post) auto

lemma moduleRegex_Foo:
  assumes "post = [] \<or> \<not> isWord (hd post)"
  shows "moduleRegex (js ''module 0x1::Foo'' @ post) = Some (js ''0x1::Foo'', 15)"
  using takeWhile_stop [where P = isWord, OF assms] dropWhile_stop [where P = isWord, OF assms]
  by (simp add: moduleRegex_def literal_def spaces1_def word1_def js_def isSpace_def isWord_def)

lemma moduleRegex_literal: "moduleRegex s = Some x \<Longrightarrow> prefix (js ''module'') s"
  by (auto simp: moduleRegex_def literal_def split: if_splits bind_splits)

lemma no_module_before:
  assumes "\<not> str_includes pre (js ''module'')" and "pre \<noteq> []"
  shows "\<not> prefix (js ''module'') (pre @ js ''module 0x1::Foo'' @ post)"
proof
  assume "prefix (js ''module'') (pre @ js ''module 0x1::Foo'' @ post)"
  then consider "prefix (js ''module'') pre"
    | us where "js ''module'' = pre @ us" "prefix us (js ''module 0x1::Foo'' @ post)"
    by (auto simp: prefix_append)
  then show False
  proof cases
    case 1
    then have "sublist (js ''module'') pre" by (rule prefix_imp_sublist)
    with assms(1) show False by (simp add: str_includes_sublist)
  next
    case 2
    from 2(1) assms(2) have "us = [] \<or> (\<exists>c. prefix us [c] \<and> c \<noteq> 0x6D) \<or> (\<exists>c t. us = c # t \<and> c \<noteq> 0x6D)"
      by (auto simp: js_def Cons_eq_append_conv)
    then show False
    proof
      assume "us = []"
      with 2(1) have "sublist (js ''module'') pre" by simp
      with assms(1) show False by (simp add: str_includes_sublist)
    next
      assume "(\<exists>c. prefix us [c] \<and> c \<noteq> 0x6D) \<or> (\<exists>c t. us = c # t \<and> c \<noteq> 0x6D)"
      moreover have "us \<noteq> [] \<Longrightarrow> hd us = 0x6D"
        using 2(2) by (cases us) (auto simp: js_def)
      moreover have "us \<noteq> []"
        using 2(1) assms(1) by (auto simp: str_includes_sublist)
      ultimately show False by (cases us) auto
    qed
  qed
qed

lemma execLoop_skip:
  assumes "\<not> str_includes pre (js ''module'')"
  shows "execLoop moduleRegex (pre @ js ''module 0x1::Foo'' @ post) arr
         = execLoop moduleRegex (js ''module 0x1::Foo'' @ post) arr"
  using assms
proof (induction pre)
  case Nil
  show ?case by simp
next
  case (Cons c pre)
  have "\<not> prefix (js ''module'') ((c # pre) @ js ''module 0x1::Foo'' @ post)"
    using Cons.prems by (intro no_module_before) simp_all
  then have "moduleRegex (c # pre @ js ''module 0x1::Foo'' @ post) = None"
    by (cases "moduleRegex (c # pre @ js ''module 0x1::Foo'' @ post)")
       (auto dest: moduleRegex_literal)
  moreover have "\<not> str_includes pre (js ''module'')"
    using Cons.prems by simp
  ultimately show ?case using Cons.IH by simp
qed

lemma execLoop_Foo:
  assumes "\<not> str_includes pre (js ''module'')" and "post = [] \<or> \<not> isWord (hd post)"
  shows "js ''0x1::Foo'' \<in> set (execLoop moduleRegex (pre @ js ''module 0x1::Foo'' @ post) arr)"
proof -
  have e: "js ''module 0x1::Foo'' @ post = 0x6D # js ''odule 0x1::Foo'' @ post"
    by (simp add: js_def)
  have m: "moduleRegex (0x6D # js ''odule 0x1::Foo'' @ post) = Some (js ''0x1::Foo'', 15)"
    using moduleRegex_Foo [OF assms(2)] unfolding e .
  have "execLoop moduleRegex (0x6D # js ''odule 0x1::Foo'' @ post) arr
        = execLoop moduleRegex post (if js ''0x1::Foo'' \<in> set arr then arr else arr @ [js ''0x1::Foo''])"
    by (simp add: m) (simp add: js_def)
  moreover have "js ''0x1::Foo'' \<in> set (if js ''0x1::Foo'' \<in> set arr then arr else arr @ [js ''0x1::Foo''])"
    by simp
  ultimately have "js ''0x1::Foo'' \<in> set (execLoop moduleRegex (0x6D # js ''odule 0x1::Foo'' @ post) arr)"
    using set_mono_prefix [OF execLoop_prefix, of "if js ''0x1::Foo'' \<in> set arr then arr else arr @ [js ''0x1::Foo'']" moduleRegex post]
    by (simp only: subsetD)
  then have "js ''0x1::Foo'' \<in> set (execLoop moduleRegex (js ''module 0x1::Foo'' @ post) arr)"
    unfolding e .
  then show ?thesis
    by (simp only: execLoop_skip [OF assms(1)])
qed

lemma execLoop_arrives:
  "searchArrives pre rest \<Longrightarrow>
   \<exists>arr'. prefix arr arr' \<and> execLoop moduleRegex (pre @ rest) arr = execLoop moduleRegex rest arr'"
proof (induction pre rest arbitrary: arr rule: searchArrives.induct)
  case (1 rest)
  show ?case by auto
next
  case (2 c cs rest)
  show ?case
  proof (cases "moduleRegex (c # cs @ rest)")
    case None
    with "2.prems" have "searchArrives cs rest" by simp
    then obtain arr' where "prefix arr arr'"
      "execLoop moduleRegex (cs @ rest) arr = execLoop moduleRegex rest arr'"
      using "2.IH"(1) [OF None] by blast
    with None show ?thesis by auto
  next
    case (Some a)
    obtain m1 len where a: "a = (m1, len)" by (cases a)
    let ?arr1 = "if m1 \<in> set arr then arr else arr @ [m1]"
    from "2.prems" Some a have len: "len \<le> Suc (length cs)"
      and arrives: "searchArrives (drop (len - 1) cs) rest"
      by simp_all
    from len have d: "drop (len - 1) (cs @ rest) = drop (len - 1) cs @ rest"
      by simp
    obtain arr' where p: "prefix ?arr1 arr'"
      and e: "execLoop moduleRegex (drop (len - 1) cs @ rest) ?arr1 = execLoop moduleRegex rest arr'"
      using "2.IH"(2) [OF Some a [symmetric] arrives] by blast
    have "prefix arr ?arr1" by simp
    then have "prefix arr arr'" using p by (rule prefix_order.trans)
    moreover have "execLoop moduleRegex ((c # cs) @ rest) arr = execLoop moduleRegex rest arr'"
      using Some a d e by simp
    ultimately show ?thesis by blast
  qed
qed

lemma execLoop_arrives_Foo:
  assumes "searchArrives pre (js ''module 0x1::Foo'' @ post)"
    and "post = [] \<or> \<not> isWord (hd post)"
  shows "js ''0x1::Foo'' \<in> set (execLoop moduleRegex (pre @ js ''module 0x1::Foo'' @ post) arr)"
proof -
  obtain arr' where e: "execLoop moduleRegex (pre @ js ''module 0x1::Foo'' @ post) arr
      = execLoop moduleRegex (js ''module 0x1::Foo'' @ post) arr'"
    using execLoop_arrives [OF assms(1)] by blast
  have "\<not> str_includes [] (js ''module'')"
    by (simp add: js_def)
  then have "js ''0x1::Foo'' \<in> set (execLoop moduleRegex ([] @ js ''module 0x1::Foo'' @ post) arr')"
    using assms(2) by (rule execLoop_Foo)
  with e show ?thesis by simp
qed

lemma no_module_arrives:
  assumes "\<not> str_includes pre (js ''module'')"
  shows "searchArrives pre (js ''module 0x1::Foo'' @ post)"
  using assms
proof (induction pre)
  case Nil
  show ?case by simp
next
  case (Cons c pre)
  have "\<not> prefix (js ''module'') ((c # pre) @ js ''module 0x1::Foo'' @ post)"
    using Cons.prems by (intro no_module_before) simp_all
  then have "moduleRegex (c # pre @ js ''module 0x1::Foo'' @ post) = None"
    by (cases "moduleRegex (c # pre @ js ''module 0x1::Foo'' @ post)")
       (auto dest: moduleRegex_literal)
  moreover have "searchArrives pre (js ''module 0x1::Foo'' @ post)"
    using Cons by simp
  ultimately show ?case by simp
qed

lemma arrives_after_Bar:
  "searchArrives (js ''module 0x1::Bar {} '') (js ''module 0x1::Foo'' @ js '' {}'')"
  by (simp add: moduleRegex_def literal_def spaces1_def word1_def js_def isSpace_def isWord_def)

lemma moduleRegex_Foobar:
  "moduleRegex (js ''module 0x1::Foobar'') = Some (js ''0x1::Foobar'', 18)"
  by (simp add: moduleRegex_def literal_def spaces1_def word1_def js_def isSpace_def isWord_def)

lemma execLoop_Foobar:
  "execLoop moduleRegex (js ''module 0x1::Foobar'') arr
   = (if js ''0x1::Foobar'' \<in> set arr then arr else arr @ [js ''0x1::Foobar''])"
proof -
  have e: "js ''module 0x1::Foobar'' = 0x6D # js ''odule 0x1::Foobar''"
    by (simp add: js_def)
  have m: "moduleRegex (0x6D # js ''odule 0x1::Foobar'') = Some (js ''0x1::Foobar'', 18)"
    using moduleRegex_Foobar unfolding e .
  show ?thesis
    unfolding e by (simp add: m) (simp add: js_def)
qed

lemma moduleRegex_overlap:
  "moduleRegex (js ''module a::module 0x1::Foo'') = Some (js ''a::module'', 16)"
  by (simp add: moduleRegex_def literal_def spaces1_def word1_def js_def isSpace_def isWord_def)

lemma moduleRegex_rest:
  "moduleRegex (js '' 0x1::Foo'') = None"
  "moduleRegex (js ''0x1::Foo'') = None"
  "moduleRegex (js ''x1::Foo'') = None"
  "moduleRegex (js ''1::Foo'') = None"
  "moduleRegex (js ''::Foo'') = None"
  "moduleRegex (js '':Foo'') = None"
  "moduleRegex (js ''Foo'') = None"
  "moduleRegex (js ''oo'') = None"
  "moduleRegex (js ''o'') = None"
  by (simp_all add: moduleRegex_def literal_def js_def)

lemma execLoop_rest: "execLoop moduleRegex (js '' 0x1::Foo'') arr = arr"
proof -
  have e: "js '' 0x1::Foo'' = 0x20 # js ''0x1::Foo''" "js ''0x1::Foo'' = 0x30 # js ''x1::Foo''"
    "js ''x1::Foo'' = 0x78 # js ''1::Foo''" "js ''1::Foo'' = 0x31 # js ''::Foo''"
    "js ''::Foo'' = 0x3A # js '':Foo''" "js '':Foo'' = 0x3A # js ''Foo''"
    "js ''Foo'' = 0x46 # js ''oo''" "js ''oo'' = 0x6F # js ''o''" "js ''o'' = [0x6F]"
    by (simp_all add: js_def)
  show ?thesis
    using moduleRegex_rest unfolding e by simp
qed

lemma execLoop_overlap:
  "execLoop moduleRegex (js ''module a::module 0x1::Foo'') arr
   = (if js ''a::module'' \<in> set arr then arr else arr @ [js ''a::module''])"
proof -
  have e: "js ''module a::module 0x1::Foo'' = 0x6D # js ''odule a::module 0x1::Foo''"
    by (simp add: js_def)
  have m: "moduleRegex (0x6D # js ''odule a::module 0x1::Foo'') = Some (js ''a::module'', 16)"
    using moduleRegex_overlap unfolding e .
  have d: "drop 15 (js ''odule a::module 0x1::Foo'') = js '' 0x1::Foo''"
    by (simp add: js_def)
  show ?thesis
    unfolding e by (simp add: m d execLoop_rest)
qed

section \<open>Facts about analyzeCode\<close>

lemma analyzeCode_modules:
  "prefix (execLoop moduleRegex code (arrays h (modules (contexts h (context this)))))
     (arrays (analyzeCode this code h) (modules (contexts h (context this))))"
proof -
  define h1 where "h1 = pushMatches moduleRegex code (modules (contexts h (context this))) h"
  define h2 where "h2 = pushMatches structRegex code (structs (contexts h1 (context this))) h1"
  have "arrays h1 (modules (contexts h (context this)))
        = execLoop moduleRegex code (arrays h (modules (contexts h (context this))))"
    by (simp add: h1_def pushMatches_def)
  moreover have "prefix (arrays h1 (modules (contexts h (context this))))
                   (arrays h2 (modules (contexts h (context this))))"
    unfolding h2_def by (rule pushMatches_prefix)
  moreover have "prefix (arrays h2 (modules (contexts h (context this))))
     (arrays (pushMatches funcRegex code (functions (contexts h2 (context this))) h2)
        (modules (contexts h (context this))))"
    by (rule pushMatches_prefix)
  ultimately show ?thesis
    unfolding analyzeCode_def Let_def h1_def [symmetric] h2_def [symmetric]
    by (metis prefix_order.trans)
qed

lemma distinct_count_one: "distinct xs \<Longrightarrow> x \<in> set xs \<Longrightarrow> count_list xs x = 1"
  by (induction xs) auto

lemma analyzeCode_readContext:
  assumes "modules (contexts h (context this)) \<noteq> structs (contexts h (context this))"
    and "modules (contexts h (context this)) \<noteq> functions (contexts h (context this))"
    and "structs (contexts h (context this)) \<noteq> functions (contexts h (context this))"
  shows "readContext (analyzeCode this code h) (context this)
         = (execLoop moduleRegex code (arrays h (modules (contexts h (context this)))),
            execLoop structRegex code (arrays h (structs (contexts h (context this)))),
            execLoop funcRegex code (arrays h (functions (contexts h (context this)))))"
  using assms by (simp add: readContext_def analyzeCode_def pushMatches_def Let_def)

lemma first_instance:
  "context (fst (new_MoveAI emptyStore)) = 3"
  "contexts (snd (new_MoveAI emptyStore)) 3 = \<lparr>modules = 0, structs = 1, functions = 2\<rparr>"
  "arrays (snd (new_MoveAI emptyStore)) r = []"
  by (simp_all add: new_MoveAI_def emptyStore_def Let_def)

lemma first_instance_twice:
  "arrays (analyzeCode (fst (new_MoveAI emptyStore)) c
             (analyzeCode (fst (new_MoveAI emptyStore)) c (snd (new_MoveAI emptyStore))))
      (modules (contexts (snd (new_MoveAI emptyStore)) (context (fst (new_MoveAI emptyStore)))))
   = execLoop moduleRegex c (execLoop moduleRegex c [])"
proof -
  let ?ai = "fst (new_MoveAI emptyStore)" and ?h = "snd (new_MoveAI emptyStore)"
  have r: "fst (readContext (analyzeCode ?ai c h) (context ?ai))
           = execLoop moduleRegex c (arrays h (modules (contexts h (context ?ai))))"
    if "contexts h = contexts ?h" for h
    using analyzeCode_readContext [of h ?ai c] that by (simp add: first_instance)
  have 1: "arrays (analyzeCode ?ai c ?h) (modules (contexts ?h (context ?ai)))
           = execLoop moduleRegex c []"
    using r [of ?h] by (simp add: readContext_def analyzeCode_contexts first_instance)
  show ?thesis
    using r [of "analyzeCode ?ai c ?h"] 1
    by (simp add: readContext_def analyzeCode_contexts first_instance)
qed

lemma lines_append:
  "a \<noteq> [] \<Longrightarrow> b \<noteq> [] \<Longrightarrow> lines (a @ b) = lines a @ CHR 0x0A # lines b"
proof (induction a rule: lines.induct)
  case 1
  then show ?case by simp
next
  case (2 l)
  then show ?case by (cases b) simp_all
next
  case (3 l m ls)
  then show ?case by simp
qed

section \<open>Properties of the classifier\<close>

text \<open>
  The Token and the NFT template differ in their fourth line, and their default names
  differ, so for no parameters do the two generators return the same text.
\<close>

lemma js_eq_iff: "js a = js b \<longleftrightarrow> a = b"
  unfolding js_def by (rule inj_map_eq_map [OF inj_js_char])

lemma token_nft_bodies:
  "lines (tokenHead @ transferLines @ tokenTail)
   = '' {'' @ CHR 0x0A # ''    use std::signer;'' @ CHR 0x0A # ''    use std::string::String;''
     @ CHR 0x0A # '''' @ CHR 0x0A # lines (drop 4 tokenHead @ transferLines @ tokenTail)"
  "lines nftLines
   = '' {'' @ CHR 0x0A # ''    use std::signer;'' @ CHR 0x0A # ''    use std::string::String;''
     @ CHR 0x0A # ''    use std::vector;'' @ CHR 0x0A # lines (drop 4 nftLines)"
  by (simp_all add: tokenHead_def nftLines_def)

lemma token_differs_from_nft: "generateTokenContract p \<noteq> generateNFTContract p"
proof -
  have b: "lines (tokenHead @ transferLines @ tokenTail) \<noteq> lines nftLines"
    unfolding token_nft_bodies by simp
  have d: "js ''MyToken'' @ x \<noteq> js ''MyNFT'' @ y" for x y
    by (simp add: js_def)
  show ?thesis
  proof (cases "p (js ''name'') = None \<or> p (js ''name'') = Some []")
    case True
    then show ?thesis
      using d by (auto simp: generateTokenContract_def generateNFTContract_def orDefault_def)
  next
    case False
    then show ?thesis
      using b by (auto simp: generateTokenContract_def generateNFTContract_def orDefault_def js_eq_iff)
  qed
qed

text \<open>
  C2. The classifier is an ordered first-match chain over the lower-cased intent: token
  or coin gives the Token generator's output; failing that, nft the NFT generator's;
  failing that, marketplace the Marketplace generator's; failing that, module the Module
  generator's. So an intent whose lower-cased form contains both \<open>token\<close> and \<open>nft\<close>, in
  whatever letter case the intent wrote them, gets the Token generator's output, which
  is never the NFT generator's.
\<close>

theorem generateCode_token_before_nft:
  "(str_includes (toLowerCase intent) (js ''token'') \<or> str_includes (toLowerCase intent) (js ''coin'')
      \<longrightarrow> generateCode intent p = generateTokenContract p)
   \<and> (\<not> str_includes (toLowerCase intent) (js ''token'') \<and> \<not> str_includes (toLowerCase intent) (js ''coin'')
      \<and> str_includes (toLowerCase intent) (js ''nft'')
      \<longrightarrow> generateCode intent p = generateNFTContract p)
   \<and> (\<not> str_includes (toLowerCase intent) (js ''token'') \<and> \<not> str_includes (toLowerCase intent) (js ''coin'')
      \<and> \<not> str_includes (toLowerCase intent) (js ''nft'')
      \<and> str_includes (toLowerCase intent) (js ''marketplace'')
      \<longrightarrow> generateCode intent p = generateMarketplace p)
   \<and> (\<not> str_includes (toLowerCase intent) (js ''token'') \<and> \<not> str_includes (toLowerCase intent) (js ''coin'')
      \<and> \<not> str_includes (toLowerCase intent) (js ''nft'')
      \<and> \<not> str_includes (toLowerCase intent) (js ''marketplace'')
      \<and> str_includes (toLowerCase intent) (js ''module'')
      \<longrightarrow> generateCode intent p = generateModule p)
   \<and> (str_includes (toLowerCase intent) (js ''token'') \<and> str_includes (toLowerCase intent) (js ''nft'')
      \<longrightarrow> generateCode intent p = generateTokenContract p
          \<and> generateCode intent p \<noteq> generateNFTContract p)"
  using token_differs_from_nft [of p] by (simp add: generateCode_def Let_def)

theorem generateCode_token_before_nft_witness:
  "str_includes (toLowerCase (js ''Create a TOKEN Nft'')) (js ''token'')
   \<and> str_includes (toLowerCase (js ''Create a TOKEN Nft'')) (js ''nft'')
   \<and> generateCode (js ''Create a TOKEN Nft'') Map.empty = generateTokenContract Map.empty
   \<and> generateCode (js ''Create a TOKEN Nft'') Map.empty \<noteq> generateNFTContract Map.empty
   \<and> \<not> str_includes (toLowerCase (js ''an NFT'')) (js ''token'')
   \<and> \<not> str_includes (toLowerCase (js ''an NFT'')) (js ''coin'')
   \<and> str_includes (toLowerCase (js ''an NFT'')) (js ''nft'')
   \<and> generateCode (js ''an NFT'') Map.empty = generateNFTContract Map.empty
   \<and> \<not> str_includes (toLowerCase (js ''a MarketPlace module'')) (js ''token'')
   \<and> \<not> str_includes (toLowerCase (js ''a MarketPlace module'')) (js ''coin'')
   \<and> \<not> str_includes (toLowerCase (js ''a MarketPlace module'')) (js ''nft'')
   \<and> str_includes (toLowerCase (js ''a MarketPlace module'')) (js ''marketplace'')
   \<and> generateCode (js ''a MarketPlace module'') Map.empty = generateMarketplace Map.empty
   \<and> \<not> str_includes (toLowerCase (js ''a Module'')) (js ''token'')
   \<and> \<not> str_includes (toLowerCase (js ''a Module'')) (js ''coin'')
   \<and> \<not> str_includes (toLowerCase (js ''a Module'')) (js ''nft'')
   \<and> \<not> str_includes (toLowerCase (js ''a Module'')) (js ''marketplace'')
   \<and> str_includes (toLowerCase (js ''a Module'')) (js ''module'')
   \<and> generateCode (js ''a Module'') Map.empty = generateModule Map.empty"
proof -
  have l: "toLowerCase (js ''Create a TOKEN Nft'') = js ''create a token nft''"
    "toLowerCase (js ''an NFT'') = js ''an nft''"
    "toLowerCase (js ''a MarketPlace module'') = js ''a marketplace module''"
    "toLowerCase (js ''a Module'') = js ''a module''"
    by (simp_all add: toLowerCase_def lowerUnit_def js_def)
  have t: "str_includes (toLowerCase (js ''Create a TOKEN Nft'')) (js ''token'')"
    "str_includes (toLowerCase (js ''Create a TOKEN Nft'')) (js ''nft'')"
    unfolding l by (simp_all add: str_includes_js)
  have n: "\<not> str_includes (toLowerCase (js ''an NFT'')) (js ''token'')"
    "\<not> str_includes (toLowerCase (js ''an NFT'')) (js ''coin'')"
    "str_includes (toLowerCase (js ''an NFT'')) (js ''nft'')"
    unfolding l by (simp_all add: str_includes_js)
  have k: "\<not> str_includes (toLowerCase (js ''a MarketPlace module'')) (js ''token'')"
    "\<not> str_includes (toLowerCase (js ''a MarketPlace module'')) (js ''coin'')"
    "\<not> str_includes (toLowerCase (js ''a MarketPlace module'')) (js ''nft'')"
    "str_includes (toLowerCase (js ''a MarketPlace module'')) (js ''marketplace'')"
    unfolding l by (simp_all add: str_includes_js)
  have m: "\<not> str_includes (toLowerCase (js ''a Module'')) (js ''token'')"
    "\<not> str_includes (toLowerCase (js ''a Module'')) (js ''coin'')"
    "\<not> str_includes (toLowerCase (js ''a Module'')) (js ''nft'')"
    "\<not> str_includes (toLowerCase (js ''a Module'')) (js ''marketplace'')"
    "str_includes (toLowerCase (js ''a Module'')) (js ''module'')"
    unfolding l by (simp_all add: str_includes_js)
  have 1: "generateCode (js ''Create a TOKEN Nft'') Map.empty = generateTokenContract Map.empty
     \<and> generateCode (js ''Create a TOKEN Nft'') Map.empty \<noteq> generateNFTContract Map.empty"
    using t generateCode_token_before_nft [of "js ''Create a TOKEN Nft''" Map.empty] by blast
  have 2: "generateCode (js ''an NFT'') Map.empty = generateNFTContract Map.empty"
    using n generateCode_token_before_nft [of "js ''an NFT''" Map.empty] by simp
  have 3: "generateCode (js ''a MarketPlace module'') Map.empty = generateMarketplace Map.empty"
    using k generateCode_token_before_nft [of "js ''a MarketPlace module''" Map.empty] by simp
  have 4: "generateCode (js ''a Module'') Map.empty = generateModule Map.empty"
    using m generateCode_token_before_nft [of "js ''a Module''" Map.empty] by simp
  from t n k m 1 2 3 4 show ?thesis by blast
qed

text \<open>
  C3. An intent whose lower-cased form contains none of \<open>token\<close>, \<open>coin\<close>, \<open>nft\<close>,
  \<open>marketplace\<close>, \<open>module\<close> gets the fixed instructional string, for every parameter
  mapping. The function is total: there is no input on which it fails.
\<close>

theorem generateCode_fallback:
  assumes "\<not> str_includes (toLowerCase intent) (js ''token'')"
    and "\<not> str_includes (toLowerCase intent) (js ''coin'')"
    and "\<not> str_includes (toLowerCase intent) (js ''nft'')"
    and "\<not> str_includes (toLowerCase intent) (js ''marketplace'')"
    and "\<not> str_includes (toLowerCase intent) (js ''module'')"
  shows "generateCode intent p = fallback"
  using assms by (simp add: generateCode_def)

theorem generateCode_fallback_witness:
  "\<not> str_includes (toLowerCase (js ''Write me a POEM'')) (js ''token'')
   \<and> \<not> str_includes (toLowerCase (js ''Write me a POEM'')) (js ''coin'')
   \<and> \<not> str_includes (toLowerCase (js ''Write me a POEM'')) (js ''nft'')
   \<and> \<not> str_includes (toLowerCase (js ''Write me a POEM'')) (js ''marketplace'')
   \<and> \<not> str_includes (toLowerCase (js ''Write me a POEM'')) (js ''module'')
   \<and> generateCode (js ''Write me a POEM'') Map.empty = fallback"
proof -
  have l: "toLowerCase (js ''Write me a POEM'') = js ''write me a poem''"
    by (simp add: toLowerCase_def lowerUnit_def js_def)
  have 1: "\<not> str_includes (toLowerCase (js ''Write me a POEM'')) (js ''token'')"
    unfolding l by (simp add: js_def)
  have 2: "\<not> str_includes (toLowerCase (js ''Write me a POEM'')) (js ''coin'')"
    unfolding l by (simp add: js_def)
  have 3: "\<not> str_includes (toLowerCase (js ''Write me a POEM'')) (js ''nft'')"
    unfolding l by (simp add: js_def)
  have 4: "\<not> str_includes (toLowerCase (js ''Write me a POEM'')) (js ''marketplace'')"
    unfolding l by (simp add: js_def)
  have 5: "\<not> str_includes (toLowerCase (js ''Write me a POEM'')) (js ''module'')"
    unfolding l by (simp add: js_def)
  from 1 2 3 4 5 generateCode_fallback [OF 1 2 3 4 5] show ?thesis by simp
qed

section \<open>Properties of the reviewer\<close>

text \<open>
  A text with a mutable borrow, without \<open>acquires\<close> and without an error constant can
  still trigger the second rule, and then the review has three findings.
\<close>

theorem reviewCode_three_findings_counterexample:
  "str_includes (js ''struct S {} move_to borrow_global_mut'') (js ''borrow_global_mut'')
   \<and> \<not> str_includes (js ''struct S {} move_to borrow_global_mut'') (js ''acquires'')
   \<and> \<not> str_includes (js ''struct S {} move_to borrow_global_mut'') (js ''const E_'')
   \<and> reviewCode (js ''struct S {} move_to borrow_global_mut'') = [warnAcquires, warnKey, suggestConstants]
   \<and> reviewCode (js ''struct S {} move_to borrow_global_mut'') \<noteq> [warnAcquires, suggestConstants]"
  by (simp add: reviewCode_def js_def)

text \<open>
  C6, amended. For a source text that contains \<open>borrow_global_mut\<close>, contains neither
  \<open>acquires\<close> nor \<open>const E_\<close>, and on which the second rule does not trigger (it does
  not contain \<open>move_to\<close> and \<open>struct\<close> without \<open>has key\<close>), the review is exactly the
  missing-acquires warning followed by the error-constant suggestion.
\<close>

theorem reviewCode_two_findings:
  assumes "str_includes code (js ''borrow_global_mut'')"
    and "\<not> str_includes code (js ''acquires'')"
    and "\<not> str_includes code (js ''const E_'')"
    and "\<not> (str_includes code (js ''move_to'') \<and> str_includes code (js ''struct'')
            \<and> \<not> str_includes code (js ''has key''))"
  shows "reviewCode code = [warnAcquires, suggestConstants]"
  using assms borrow_global_mut_includes [OF assms(1)]
  by (auto simp: reviewCode_def Let_def)

theorem reviewCode_two_findings_witness:
  "str_includes (js ''let b = borrow_global_mut<Balance>(addr);'') (js ''borrow_global_mut'')
   \<and> \<not> str_includes (js ''let b = borrow_global_mut<Balance>(addr);'') (js ''acquires'')
   \<and> \<not> str_includes (js ''let b = borrow_global_mut<Balance>(addr);'') (js ''const E_'')
   \<and> \<not> (str_includes (js ''let b = borrow_global_mut<Balance>(addr);'') (js ''move_to'')
         \<and> str_includes (js ''let b = borrow_global_mut<Balance>(addr);'') (js ''struct'')
         \<and> \<not> str_includes (js ''let b = borrow_global_mut<Balance>(addr);'') (js ''has key''))
   \<and> reviewCode (js ''let b = borrow_global_mut<Balance>(addr);'') = [warnAcquires, suggestConstants]"
proof -
  have 1: "str_includes (js ''let b = borrow_global_mut<Balance>(addr);'') (js ''borrow_global_mut'')"
    by (simp add: js_def)
  have 2: "\<not> str_includes (js ''let b = borrow_global_mut<Balance>(addr);'') (js ''acquires'')"
    by (simp add: js_def)
  have 3: "\<not> str_includes (js ''let b = borrow_global_mut<Balance>(addr);'') (js ''const E_'')"
    by (simp add: js_def)
  have 4: "\<not> (str_includes (js ''let b = borrow_global_mut<Balance>(addr);'') (js ''move_to'')
         \<and> str_includes (js ''let b = borrow_global_mut<Balance>(addr);'') (js ''struct'')
         \<and> \<not> str_includes (js ''let b = borrow_global_mut<Balance>(addr);'') (js ''has key''))"
    by (simp add: js_def)
  from 1 2 3 4 reviewCode_two_findings [OF 1 2 3 4] show ?thesis by simp
qed

text \<open>
  When no rule triggers, the issue list is empty and the review is the confirmation
  message alone.
\<close>

lemma reviewCode_clean:
  assumes "str_includes code (js ''borrow_global'') \<longrightarrow> str_includes code (js ''acquires'')"
    and "str_includes code (js ''move_to'') \<and> str_includes code (js ''struct'')
         \<longrightarrow> str_includes code (js ''has key'')"
    and "str_includes code (js ''const E_'')"
  shows "reviewCode code = [noIssues]"
  using assms by (auto simp: reviewCode_def Let_def)

text \<open>
  The first rule tests for \<open>borrow_global\<close>, which every global borrow contains, mutable
  or not. A text with an immutable borrow only, without \<open>acquires\<close> and with an error
  constant, triggers none of the three rules when the first is read as a rule about
  mutable borrows, and still gets the missing-acquires warning.
\<close>

theorem reviewCode_immutable_borrow_counterexample:
  "\<not> (str_includes (js ''const E_X: u64 = 1; public fun get(a: address): u64 { borrow_global<Data>(a).value }'')
          (js ''borrow_global_mut'')
        \<and> \<not> str_includes (js ''const E_X: u64 = 1; public fun get(a: address): u64 { borrow_global<Data>(a).value }'')
            (js ''acquires''))
   \<and> \<not> (str_includes (js ''const E_X: u64 = 1; public fun get(a: address): u64 { borrow_global<Data>(a).value }'')
          (js ''move_to'')
        \<and> str_includes (js ''const E_X: u64 = 1; public fun get(a: address): u64 { borrow_global<Data>(a).value }'')
            (js ''struct'')
        \<and> \<not> str_includes (js ''const E_X: u64 = 1; public fun get(a: address): u64 { borrow_global<Data>(a).value }'')
            (js ''has key''))
   \<and> str_includes (js ''const E_X: u64 = 1; public fun get(a: address): u64 { borrow_global<Data>(a).value }'')
        (js ''const E_'')
   \<and> reviewCode (js ''const E_X: u64 = 1; public fun get(a: address): u64 { borrow_global<Data>(a).value }'')
       = [warnAcquires]
   \<and> reviewCode (js ''const E_X: u64 = 1; public fun get(a: address): u64 { borrow_global<Data>(a).value }'')
       \<noteq> [noIssues]"
  by (simp add: reviewCode_def str_includes_js warnAcquires_def noIssues_def)

text \<open>
  C7, amended. For every source text on which none of the three rules triggers as the
  code tests them (the first rule being: the text contains \<open>borrow_global\<close>, so any
  global borrow, mutable or not, and does not contain \<open>acquires\<close>), the review is the
  single confirmation message, never the empty sequence. Such a text exists: one with a
  mutable borrow, an \<open>acquires\<close> declaration, an \<open>E_\<close> constant and a struct with the key
  ability.
\<close>

theorem reviewCode_confirmation:
  assumes "\<not> (str_includes code (js ''borrow_global'') \<and> \<not> str_includes code (js ''acquires''))"
    and "\<not> (str_includes code (js ''move_to'') \<and> str_includes code (js ''struct'')
            \<and> \<not> str_includes code (js ''has key''))"
    and "\<not> \<not> str_includes code (js ''const E_'')"
  shows "reviewCode code = [noIssues] \<and> reviewCode code \<noteq> []"
  using assms by (auto simp: reviewCode_def Let_def)

theorem reviewCode_confirmation_witness:
  "str_includes 
      (js ''const E_NONE: u64 = 1; struct Data has key { value: u64 } public fun set(a: address) acquires Data { borrow_global_mut<Data>(a).value = 1; }'')
      (js ''borrow_global_mut'')
   \<and> str_includes 
      (js ''const E_NONE: u64 = 1; struct Data has key { value: u64 } public fun set(a: address) acquires Data { borrow_global_mut<Data>(a).value = 1; }'')
      (js ''acquires'')
   \<and> str_includes 
      (js ''const E_NONE: u64 = 1; struct Data has key { value: u64 } public fun set(a: address) acquires Data { borrow_global_mut<Data>(a).value = 1; }'')
      (js ''has key'')
   \<and> \<not> (str_includes 
      (js ''const E_NONE: u64 = 1; struct Data has key { value: u64 } public fun set(a: address) acquires Data { borrow_global_mut<Data>(a).value = 1; }'')
      (js ''borrow_global'') \<and> \<not> str_includes 
      (js ''const E_NONE: u64 = 1; struct Data has key { value: u64 } public fun set(a: address) acquires Data { borrow_global_mut<Data>(a).value = 1; }'')
      (js ''acquires''))
   \<and> \<not> (str_includes 
      (js ''const E_NONE: u64 = 1; struct Data has key { value: u64 } public fun set(a: address) acquires Data { borrow_global_mut<Data>(a).value = 1; }'')
      (js ''move_to'') \<and> str_includes 
      (js ''const E_NONE: u64 = 1; struct Data has key { value: u64 } public fun set(a: address) acquires Data { borrow_global_mut<Data>(a).value = 1; }'')
      (js ''struct'')
         \<and> \<not> str_includes 
      (js ''const E_NONE: u64 = 1; struct Data has key { value: u64 } public fun set(a: address) acquires Data { borrow_global_mut<Data>(a).value = 1; }'')
      (js ''has key''))
   \<and> \<not> \<not> str_includes 
      (js ''const E_NONE: u64 = 1; struct Data has key { value: u64 } public fun set(a: address) acquires Data { borrow_global_mut<Data>(a).value = 1; }'')
      (js ''const E_'')
   \<and> reviewCode 
      (js ''const E_NONE: u64 = 1; struct Data has key { value: u64 } public fun set(a: address) acquires Data { borrow_global_mut<Data>(a).value = 1; }'')
      = [noIssues] \<and> reviewCode 
      (js ''const E_NONE: u64 = 1; struct Data has key { value: u64 } public fun set(a: address) acquires Data { borrow_global_mut<Data>(a).value = 1; }'')
      \<noteq> []"
proof -
  have b: "str_includes 
      (js ''const E_NONE: u64 = 1; struct Data has key { value: u64 } public fun set(a: address) acquires Data { borrow_global_mut<Data>(a).value = 1; }'')
      (js ''borrow_global_mut'')"
    by (simp add: str_includes_js)
  have a: "str_includes 
      (js ''const E_NONE: u64 = 1; struct Data has key { value: u64 } public fun set(a: address) acquires Data { borrow_global_mut<Data>(a).value = 1; }'')
      (js ''acquires'')"
    by (simp add: str_includes_js)
  have k: "str_includes 
      (js ''const E_NONE: u64 = 1; struct Data has key { value: u64 } public fun set(a: address) acquires Data { borrow_global_mut<Data>(a).value = 1; }'')
      (js ''has key'')"
    by (simp add: str_includes_js)
  have e: "str_includes 
      (js ''const E_NONE: u64 = 1; struct Data has key { value: u64 } public fun set(a: address) acquires Data { borrow_global_mut<Data>(a).value = 1; }'')
      (js ''const E_'')"
    by (simp add: str_includes_js)
  have 1: "\<not> (str_includes 
      (js ''const E_NONE: u64 = 1; struct Data has key { value: u64 } public fun set(a: address) acquires Data { borrow_global_mut<Data>(a).value = 1; }'')
      (js ''borrow_global'') \<and> \<not> str_includes 
      (js ''const E_NONE: u64 = 1; struct Data has key { value: u64 } public fun set(a: address) acquires Data { borrow_global_mut<Data>(a).value = 1; }'')
      (js ''acquires''))"
    using a by simp
  have 2: "\<not> (str_includes 
      (js ''const E_NONE: u64 = 1; struct Data has key { value: u64 } public fun set(a: address) acquires Data { borrow_global_mut<Data>(a).value = 1; }'')
      (js ''move_to'') \<and> str_includes 
      (js ''const E_NONE: u64 = 1; struct Data has key { value: u64 } public fun set(a: address) acquires Data { borrow_global_mut<Data>(a).value = 1; }'')
      (js ''struct'')
         \<and> \<not> str_includes 
      (js ''const E_NONE: u64 = 1; struct Data has key { value: u64 } public fun set(a: address) acquires Data { borrow_global_mut<Data>(a).value = 1; }'')
      (js ''has key''))"
    using k by simp
  have 3: "\<not> \<not> str_includes 
      (js ''const E_NONE: u64 = 1; struct Data has key { value: u64 } public fun set(a: address) acquires Data { borrow_global_mut<Data>(a).value = 1; }'')
      (js ''const E_'')"
    using e by simp
  from b a k 1 2 3 reviewCode_confirmation [OF 1 2 3] show ?thesis by simp
qed

section \<open>Properties of the glossary\<close>

text \<open>
  C8. The glossary lookup lower-cases the concept and tests the keys by containment in
  the order abilities, resources, acquires, signer; the first key contained decides.
  \<open>Acquires\<close> gets the acquires explanation, \<open>banana\<close> the not-found string.
\<close>

theorem explainConcept_first_match:
  "explainConcept concept =
     (if str_includes (toLowerCase concept) (js ''abilities'') then js (lines abilitiesLines)
      else if str_includes (toLowerCase concept) (js ''resources'') then js (lines resourcesLines)
      else if str_includes (toLowerCase concept) (js ''acquires'') then js (lines acquiresLines)
      else if str_includes (toLowerCase concept) (js ''signer'') then js (lines signerLines)
      else notFound)
   \<and> explainConcept (js ''Acquires'') = js (lines acquiresLines)
   \<and> explainConcept (js ''banana'') = notFound"
proof -
  have chain: "explainConcept c =
     (if str_includes (toLowerCase c) (js ''abilities'') then js (lines abilitiesLines)
      else if str_includes (toLowerCase c) (js ''resources'') then js (lines resourcesLines)
      else if str_includes (toLowerCase c) (js ''acquires'') then js (lines acquiresLines)
      else if str_includes (toLowerCase c) (js ''signer'') then js (lines signerLines)
      else notFound)" for c
    by (simp add: explainConcept_def explanations_def)
  have la: "toLowerCase (js ''Acquires'') = js ''acquires''"
    by (simp add: toLowerCase_def lowerUnit_def js_def)
  have lb: "toLowerCase (js ''banana'') = js ''banana''"
    by (simp add: toLowerCase_def lowerUnit_def js_def)
  have a: "explainConcept (js ''Acquires'') = js (lines acquiresLines)"
    unfolding chain la by (simp add: str_includes_js)
  have b: "explainConcept (js ''banana'') = notFound"
    unfolding chain lb by (simp add: str_includes_js)
  from chain a b show ?thesis by blast
qed

section \<open>Generated code under review\<close>

text \<open>
  Each template has, on lines of its constant part, an \<open>acquires\<close> declaration, a struct
  with the key ability and an error constant. So no reviewer rule triggers on its output,
  whatever the parameters.
\<close>

lemma generateModule_clean: "reviewCode (generateModule p) = [noIssues]"
proof (rule reviewCode_clean)
  have "sublist (js ''acquires'') (js (lines moduleLines))"
    by (rule line_in_output [where l = "''    public fun get_value(account_addr: address): u64 acquires Data {''"])
       (simp_all add: moduleLines_def)
  then show "str_includes (generateModule p) (js ''borrow_global'')
     \<longrightarrow> str_includes (generateModule p) (js ''acquires'')"
    by (simp add: generateModule_def Let_def str_includes_sublist sublist_append)
  have "sublist (js ''has key'') (js (lines moduleLines))"
    by (rule line_in_output [where l = "''    struct Data has key {''"])
       (simp_all add: moduleLines_def)
  then show "str_includes (generateModule p) (js ''move_to'') \<and> str_includes (generateModule p) (js ''struct'')
     \<longrightarrow> str_includes (generateModule p) (js ''has key'')"
    by (simp add: generateModule_def Let_def str_includes_sublist sublist_append)
  have "sublist (js ''const E_'') (js (lines moduleLines))"
    by (rule line_in_output [where l = "''    const E_NOT_AUTHORIZED: u64 = 1;''"])
       (simp_all add: moduleLines_def)
  then show "str_includes (generateModule p) (js ''const E_'')"
    by (simp add: generateModule_def Let_def str_includes_sublist sublist_append)
qed

lemma generateTokenContract_clean: "reviewCode (generateTokenContract p) = [noIssues]"
proof (rule reviewCode_clean)
  have "sublist (js ''acquires'') (js (lines (tokenHead @ transferLines @ tokenTail)))"
    by (rule line_in_output [where l = "''    ) acquires Balance {''"])
       (simp_all add: tokenHead_def transferLines_def)
  then show "str_includes (generateTokenContract p) (js ''borrow_global'')
     \<longrightarrow> str_includes (generateTokenContract p) (js ''acquires'')"
    by (simp add: generateTokenContract_def Let_def str_includes_sublist sublist_append)
  have "sublist (js ''has key'') (js (lines (tokenHead @ transferLines @ tokenTail)))"
    by (rule line_in_output [where l = "''    struct Balance has key {''"])
       (simp_all add: tokenHead_def transferLines_def)
  then show "str_includes (generateTokenContract p) (js ''move_to'') \<and> str_includes (generateTokenContract p) (js ''struct'')
     \<longrightarrow> str_includes (generateTokenContract p) (js ''has key'')"
    by (simp add: generateTokenContract_def Let_def str_includes_sublist sublist_append)
  have "sublist (js ''const E_'') (js (lines (tokenHead @ transferLines @ tokenTail)))"
    by (rule line_in_output [where l = "''    const E_NOT_INITIALIZED: u64 = 1;''"])
       (simp_all add: tokenHead_def transferLines_def)
  then show "str_includes (generateTokenContract p) (js ''const E_'')"
    by (simp add: generateTokenContract_def Let_def str_includes_sublist sublist_append)
qed

lemma generateNFTContract_clean: "reviewCode (generateNFTContract p) = [noIssues]"
proof (rule reviewCode_clean)
  have "sublist (js ''acquires'') (js (lines nftLines))"
    by (rule line_in_output [where l = "''    ) acquires NFTCollection {''"])
       (simp_all add: nftLines_def)
  then show "str_includes (generateNFTContract p) (js ''borrow_global'')
     \<longrightarrow> str_includes (generateNFTContract p) (js ''acquires'')"
    by (simp add: generateNFTContract_def Let_def str_includes_sublist sublist_append)
  have "sublist (js ''has key'') (js (lines nftLines))"
    by (rule line_in_output [where l = "''    struct NFTCollection has key {''"])
       (simp_all add: nftLines_def)
  then show "str_includes (generateNFTContract p) (js ''move_to'') \<and> str_includes (generateNFTContract p) (js ''struct'')
     \<longrightarrow> str_includes (generateNFTContract p) (js ''has key'')"
    by (simp add: generateNFTContract_def Let_def str_includes_sublist sublist_append)
  have "sublist (js ''const E_'') (js (lines nftLines))"
    by (rule line_in_output [where l = "''    const E_NOT_OWNER: u64 = 1;''"])
       (simp_all add: nftLines_def)
  then show "str_includes (generateNFTContract p) (js ''const E_'')"
    by (simp add: generateNFTContract_def Let_def str_includes_sublist sublist_append)
qed

lemma generateMarketplace_clean: "reviewCode (generateMarketplace p) = [noIssues]"
proof (rule reviewCode_clean)
  have "sublist (js ''acquires'') (js (lines marketplaceLines1))"
    by (rule line_in_output [where l = "''    ) acquires MarketplaceData {''"])
       (simp_all add: marketplaceLines1_def)
  then show "str_includes (generateMarketplace p) (js ''borrow_global'')
     \<longrightarrow> str_includes (generateMarketplace p) (js ''acquires'')"
    by (simp add: generateMarketplace_def Let_def str_includes_sublist sublist_append)
  have "sublist (js ''has key'') (js (lines marketplaceLines1))"
    by (rule line_in_output [where l = "''    struct MarketplaceData has key {''"])
       (simp_all add: marketplaceLines1_def)
  then show "str_includes (generateMarketplace p) (js ''move_to'') \<and> str_includes (generateMarketplace p) (js ''struct'')
     \<longrightarrow> str_includes (generateMarketplace p) (js ''has key'')"
    by (simp add: generateMarketplace_def Let_def str_includes_sublist sublist_append)
  have "sublist (js ''const E_'') (js (lines marketplaceLines1))"
    by (rule line_in_output [where l = "''    const E_LISTING_NOT_FOUND: u64 = 1;''"])
       (simp_all add: marketplaceLines1_def)
  then show "str_includes (generateMarketplace p) (js ''const E_'')"
    by (simp add: generateMarketplace_def Let_def str_includes_sublist sublist_append)
qed


text \<open>The fallback string has no error constant, and nothing else the rules look for.\<close>

lemma fallback_review: "reviewCode fallback = [suggestConstants]"
  by (simp add: reviewCode_def fallback_def str_includes_js)

text \<open>
  C10. For every intent whose lower-cased form contains at least one of the five
  keywords, and the empty parameter mapping, the review of the generated code is the
  confirmation message alone; the review of the fallback string is the error-constant
  suggestion.
\<close>

theorem generated_code_passes_review:
  assumes "str_includes (toLowerCase intent) (js ''token'')
         \<or> str_includes (toLowerCase intent) (js ''coin'')
         \<or> str_includes (toLowerCase intent) (js ''nft'')
         \<or> str_includes (toLowerCase intent) (js ''marketplace'')
         \<or> str_includes (toLowerCase intent) (js ''module'')"
  shows "reviewCode (generateCode intent Map.empty) = [noIssues]
       \<and> reviewCode fallback = [suggestConstants]"
proof -
  from assms have "generateCode intent Map.empty = generateTokenContract Map.empty
      \<or> generateCode intent Map.empty = generateNFTContract Map.empty
      \<or> generateCode intent Map.empty = generateMarketplace Map.empty
      \<or> generateCode intent Map.empty = generateModule Map.empty"
    by (auto simp: generateCode_def Let_def)
  then have "reviewCode (generateCode intent Map.empty) = [noIssues]"
    using generateTokenContract_clean generateNFTContract_clean
      generateMarketplace_clean generateModule_clean by metis
  then show ?thesis by (simp add: fallback_review)
qed

theorem generated_code_passes_review_witness:
  "(str_includes (toLowerCase (js ''Create a Marketplace'')) (js ''token'')
    \<or> str_includes (toLowerCase (js ''Create a Marketplace'')) (js ''coin'')
    \<or> str_includes (toLowerCase (js ''Create a Marketplace'')) (js ''nft'')
    \<or> str_includes (toLowerCase (js ''Create a Marketplace'')) (js ''marketplace'')
    \<or> str_includes (toLowerCase (js ''Create a Marketplace'')) (js ''module''))
   \<and> generateCode (js ''Create a Marketplace'') Map.empty = generateMarketplace Map.empty
   \<and> reviewCode (generateCode (js ''Create a Marketplace'') Map.empty) = [noIssues]
   \<and> reviewCode fallback = [suggestConstants]"
proof -
  have l: "toLowerCase (js ''Create a Marketplace'') = js ''create a marketplace''"
    by (simp add: toLowerCase_def lowerUnit_def js_def)
  have m: "str_includes (toLowerCase (js ''Create a Marketplace'')) (js ''marketplace'')"
    unfolding l by (simp add: str_includes_js)
  then have h: "str_includes (toLowerCase (js ''Create a Marketplace'')) (js ''token'')
    \<or> str_includes (toLowerCase (js ''Create a Marketplace'')) (js ''coin'')
    \<or> str_includes (toLowerCase (js ''Create a Marketplace'')) (js ''nft'')
    \<or> str_includes (toLowerCase (js ''Create a Marketplace'')) (js ''marketplace'')
    \<or> str_includes (toLowerCase (js ''Create a Marketplace'')) (js ''module'')"
    by simp
  have g: "generateCode (js ''Create a Marketplace'') Map.empty = generateMarketplace Map.empty"
    unfolding generateCode_def l by (simp add: str_includes_js)
  from h g generated_code_passes_review [OF h] show ?thesis by simp
qed

section \<open>Defaults of the Token generator\<close>









section \<open>Properties of the context\<close>

text \<open>
  \<open>getContext\<close> hands out the address of the context object itself. On a fresh instance,
  what is read through that address before and after \<open>analyzeCode\<close> of a module
  declaration differs: the module array has gained the name.
\<close>

theorem getContext_snapshot_counterexample:
  "readContext (analyzeCode (fst (new_MoveAI emptyStore)) (js ''module 0x1::Foo'')
                  (snd (new_MoveAI emptyStore)))
       (getContext (fst (new_MoveAI emptyStore)))
   \<noteq> readContext (snd (new_MoveAI emptyStore)) (getContext (fst (new_MoveAI emptyStore)))"
proof -
  let ?ai = "fst (new_MoveAI emptyStore)" and ?h = "snd (new_MoveAI emptyStore)"
  have "js ''0x1::Foo'' \<in> set (execLoop moduleRegex ([] @ js ''module 0x1::Foo'' @ []) [])"
    by (rule execLoop_Foo) (simp_all add: js_def)
  then have found: "execLoop moduleRegex (js ''module 0x1::Foo'') [] \<noteq> []"
    by auto
  have "readContext (analyzeCode ?ai (js ''module 0x1::Foo'') ?h) (context ?ai)
         = (execLoop moduleRegex (js ''module 0x1::Foo'') (arrays ?h (modules (contexts ?h (context ?ai)))),
            execLoop structRegex (js ''module 0x1::Foo'') (arrays ?h (structs (contexts ?h (context ?ai)))),
            execLoop funcRegex (js ''module 0x1::Foo'') (arrays ?h (functions (contexts ?h (context ?ai)))))"
    by (rule analyzeCode_readContext) (simp_all add: first_instance)
  then have after: "fst (readContext (analyzeCode ?ai (js ''module 0x1::Foo'') ?h) (getContext ?ai))
         = execLoop moduleRegex (js ''module 0x1::Foo'') []"
    by (simp add: getContext_def first_instance)
  have before: "fst (readContext ?h (getContext ?ai)) = []"
    by (simp add: readContext_def first_instance)
  from found after before show ?thesis by metis
qed

text \<open>
  C4, amended. \<open>getContext\<close> returns the instance's own context object, not a copy. For
  an instance made by the constructor, in any state reached by calls of its methods, what
  is read through the returned value after a later \<open>analyzeCode\<close> call is the context
  as that call updated it: each of the three arrays read before, extended by the names
  the call found that the array did not yet include.
\<close>

theorem getContext_live_reference:
  assumes "new_MoveAI h0 = (this, h)"
    and "h' = run this ops h"
    and "readContext h' (getContext this) = (ms, ss, fs)"
  shows "readContext (analyzeCode this code h') (getContext this)
         = (execLoop moduleRegex code ms, execLoop structRegex code ss, execLoop funcRegex code fs)"
proof -
  have c: "contexts h' = contexts h"
    using assms(2) by (simp add: run_contexts)
  have "readContext (analyzeCode this code h') (context this)
         = (execLoop moduleRegex code (arrays h' (modules (contexts h' (context this)))),
            execLoop structRegex code (arrays h' (structs (contexts h' (context this)))),
            execLoop funcRegex code (arrays h' (functions (contexts h' (context this)))))"
    using new_MoveAI_arrays(4-6) [OF assms(1)] unfolding c [symmetric]
    by (rule analyzeCode_readContext)
  with assms(3) show ?thesis
    by (simp add: getContext_def readContext_def)
qed

theorem getContext_live_reference_witness:
  "new_MoveAI emptyStore = (fst (new_MoveAI emptyStore), snd (new_MoveAI emptyStore))
   \<and> snd (new_MoveAI emptyStore) = run (fst (new_MoveAI emptyStore)) [] (snd (new_MoveAI emptyStore))
   \<and> readContext (snd (new_MoveAI emptyStore)) (getContext (fst (new_MoveAI emptyStore))) = ([], [], [])
   \<and> readContext (analyzeCode (fst (new_MoveAI emptyStore)) (js ''struct Balance has key'')
                     (snd (new_MoveAI emptyStore)))
          (getContext (fst (new_MoveAI emptyStore)))
       = (execLoop moduleRegex (js ''struct Balance has key'') [],
          execLoop structRegex (js ''struct Balance has key'') [],
          execLoop funcRegex (js ''struct Balance has key'') [])"
proof -
  have 1: "new_MoveAI emptyStore = (fst (new_MoveAI emptyStore), snd (new_MoveAI emptyStore))"
    by simp
  have 2: "snd (new_MoveAI emptyStore) = run (fst (new_MoveAI emptyStore)) [] (snd (new_MoveAI emptyStore))"
    by simp
  have 3: "readContext (snd (new_MoveAI emptyStore)) (getContext (fst (new_MoveAI emptyStore))) = ([], [], [])"
    by (simp add: readContext_def getContext_def first_instance)
  from 1 2 3 getContext_live_reference [OF 1 2 3] show ?thesis by blast
qed

text \<open>
  The capture of the module expression is greedy: in a text where \<open>module 0x1::Foo\<close>
  is followed by further word characters the name recorded is the longer one. And a
  match that starts earlier can swallow the keyword: in \<open>module a::module 0x1::Foo\<close> the
  expression matches \<open>module a::module\<close> and the search goes on behind it. In both
  texts no entry equals \<open>0x1::Foo\<close> after two calls on a fresh instance.
\<close>

theorem analyzeCode_twice_counterexample:
  "str_includes (js ''module 0x1::Foobar'') (js ''module 0x1::Foo'')
   \<and> count_list
         (arrays (analyzeCode (fst (new_MoveAI emptyStore)) (js ''module 0x1::Foobar'')
                   (analyzeCode (fst (new_MoveAI emptyStore)) (js ''module 0x1::Foobar'')
                      (snd (new_MoveAI emptyStore))))
            (modules (contexts (snd (new_MoveAI emptyStore)) (context (fst (new_MoveAI emptyStore))))))
         (js ''0x1::Foo'') = 0
   \<and> str_includes (js ''module a::module 0x1::Foo'') (js ''module 0x1::Foo'')
   \<and> count_list
         (arrays (analyzeCode (fst (new_MoveAI emptyStore)) (js ''module a::module 0x1::Foo'')
                   (analyzeCode (fst (new_MoveAI emptyStore)) (js ''module a::module 0x1::Foo'')
                      (snd (new_MoveAI emptyStore))))
            (modules (contexts (snd (new_MoveAI emptyStore)) (context (fst (new_MoveAI emptyStore))))))
         (js ''0x1::Foo'') = 0"
proof -
  have i: "str_includes (js ''module 0x1::Foobar'') (js ''module 0x1::Foo'')"
    "str_includes (js ''module a::module 0x1::Foo'') (js ''module 0x1::Foo'')"
    by (simp_all add: str_includes_js)
  have n: "js ''0x1::Foobar'' \<noteq> js ''0x1::Foo''" "js ''a::module'' \<noteq> js ''0x1::Foo''"
    by (simp_all add: js_def)
  have 1: "count_list (execLoop moduleRegex (js ''module 0x1::Foobar'')
             (execLoop moduleRegex (js ''module 0x1::Foobar'') [])) (js ''0x1::Foo'') = 0"
    using n by (simp add: execLoop_Foobar)
  have 2: "count_list (execLoop moduleRegex (js ''module a::module 0x1::Foo'')
             (execLoop moduleRegex (js ''module a::module 0x1::Foo'') [])) (js ''0x1::Foo'') = 0"
    using n by (simp add: execLoop_overlap)
  from i 1 2 show ?thesis
    by (simp only: first_instance_twice simp_thms)
qed

text \<open>
  C5, amended. For an instance made by the constructor and every sequence of calls of its
  methods, each of the three context arrays only grows (the array after further calls
  extends the array before) and never holds a string twice. In particular, calling
  \<open>analyzeCode\<close> twice, in any such state, with a text in which \<open>module 0x1::Foo\<close> is
  followed by the end of the text or a character that is not a word character, and in
  which no match that the search finds earlier runs into that declaration, leaves the
  module array with exactly one entry equal to \<open>0x1::Foo\<close>.
\<close>

theorem context_arrays_grow_distinct:
  assumes "new_MoveAI h0 = (this, h)"
    and "h1 = run this ops1 h"
    and "h2 = run this ops2 h1"
  shows "prefix (arrays h1 (modules (contexts h (context this)))) (arrays h2 (modules (contexts h (context this))))
       \<and> prefix (arrays h1 (structs (contexts h (context this)))) (arrays h2 (structs (contexts h (context this))))
       \<and> prefix (arrays h1 (functions (contexts h (context this)))) (arrays h2 (functions (contexts h (context this))))
       \<and> distinct (arrays h2 (modules (contexts h (context this))))
       \<and> distinct (arrays h2 (structs (contexts h (context this))))
       \<and> distinct (arrays h2 (functions (contexts h (context this))))
       \<and> (searchArrives pre (js ''module 0x1::Foo'' @ post) \<and> (post = [] \<or> \<not> isWord (hd post)) \<longrightarrow>
            count_list
              (arrays (analyzeCode this (pre @ js ''module 0x1::Foo'' @ post)
                         (analyzeCode this (pre @ js ''module 0x1::Foo'' @ post) h1))
                 (modules (contexts h (context this))))
              (js ''0x1::Foo'') = 1)"
proof -
  have p: "prefix (arrays h1 r) (arrays h2 r)" for r
    unfolding assms(3) by (rule run_prefix)
  have d0: "distinct (arrays h (modules (contexts h (context this))))"
    "distinct (arrays h (structs (contexts h (context this))))"
    "distinct (arrays h (functions (contexts h (context this))))"
    using new_MoveAI_arrays(1-3) [OF assms(1)] by simp_all
  have d1: "distinct (arrays h1 (modules (contexts h (context this))))"
    "distinct (arrays h1 (structs (contexts h (context this))))"
    "distinct (arrays h1 (functions (contexts h (context this))))"
    unfolding assms(2) using d0 by (simp_all add: run_distinct)
  have d2: "distinct (arrays h2 (modules (contexts h (context this))))"
    "distinct (arrays h2 (structs (contexts h (context this))))"
    "distinct (arrays h2 (functions (contexts h (context this))))"
    unfolding assms(3) using d1 by (simp_all add: run_distinct)
  have ex: "count_list
              (arrays (analyzeCode this (pre @ js ''module 0x1::Foo'' @ post)
                         (analyzeCode this (pre @ js ''module 0x1::Foo'' @ post) h1))
                 (modules (contexts h (context this))))
              (js ''0x1::Foo'') = 1"
    if a: "searchArrives pre (js ''module 0x1::Foo'' @ post)"
      and b: "post = [] \<or> \<not> isWord (hd post)"
  proof -
    let ?code = "pre @ js ''module 0x1::Foo'' @ post"
    let ?m = "modules (contexts h (context this))"
    have c: "contexts h1 = contexts h"
      unfolding assms(2) by (rule run_contexts)
    have "js ''0x1::Foo'' \<in> set (execLoop moduleRegex ?code (arrays h1 ?m))"
      using a b by (rule execLoop_arrives_Foo)
    moreover have "prefix (execLoop moduleRegex ?code (arrays h1 ?m)) (arrays (analyzeCode this ?code h1) ?m)"
      using analyzeCode_modules [of ?code h1 this] unfolding c .
    ultimately have "js ''0x1::Foo'' \<in> set (arrays (analyzeCode this ?code h1) ?m)"
      using set_mono_prefix by blast
    moreover have "prefix (arrays (analyzeCode this ?code h1) ?m)
                     (arrays (analyzeCode this ?code (analyzeCode this ?code h1)) ?m)"
      by (rule analyzeCode_prefix)
    ultimately have "js ''0x1::Foo'' \<in> set (arrays (analyzeCode this ?code (analyzeCode this ?code h1)) ?m)"
      using set_mono_prefix by blast
    moreover have "distinct (arrays (analyzeCode this ?code (analyzeCode this ?code h1)) ?m)"
      using d1(1) by (intro analyzeCode_distinct)
    ultimately show ?thesis by (simp add: distinct_count_one)
  qed
  from p d2 ex show ?thesis by blast
qed

theorem context_arrays_grow_distinct_witness:
  "new_MoveAI emptyStore = (fst (new_MoveAI emptyStore), snd (new_MoveAI emptyStore))
   \<and> searchArrives (js ''module 0x1::Bar {} '') (js ''module 0x1::Foo'' @ js '' {}'')
   \<and> (js '' {}'' = [] \<or> \<not> isWord (hd (js '' {}'')))
   \<and> prefix
         (arrays (run (fst (new_MoveAI emptyStore)) [AnalyzeCode (js ''struct A {}'')]
                    (snd (new_MoveAI emptyStore)))
            (modules (contexts (snd (new_MoveAI emptyStore)) (context (fst (new_MoveAI emptyStore))))))
         (arrays (run (fst (new_MoveAI emptyStore))
                    [AnalyzeCode (js ''module 0x1::Bar {} module 0x1::Foo {}'')]
                    (run (fst (new_MoveAI emptyStore)) [AnalyzeCode (js ''struct A {}'')]
                       (snd (new_MoveAI emptyStore))))
            (modules (contexts (snd (new_MoveAI emptyStore)) (context (fst (new_MoveAI emptyStore))))))
   \<and> distinct
         (arrays (run (fst (new_MoveAI emptyStore))
                    [AnalyzeCode (js ''module 0x1::Bar {} module 0x1::Foo {}'')]
                    (run (fst (new_MoveAI emptyStore)) [AnalyzeCode (js ''struct A {}'')]
                       (snd (new_MoveAI emptyStore))))
            (modules (contexts (snd (new_MoveAI emptyStore)) (context (fst (new_MoveAI emptyStore))))))
   \<and> count_list
         (arrays (analyzeCode (fst (new_MoveAI emptyStore)) (js ''module 0x1::Bar {} module 0x1::Foo {}'')
                   (analyzeCode (fst (new_MoveAI emptyStore)) (js ''module 0x1::Bar {} module 0x1::Foo {}'')
                      (run (fst (new_MoveAI emptyStore)) [AnalyzeCode (js ''struct A {}'')]
                         (snd (new_MoveAI emptyStore)))))
            (modules (contexts (snd (new_MoveAI emptyStore)) (context (fst (new_MoveAI emptyStore))))))
         (js ''0x1::Foo'') = 1"
proof -
  let ?ai = "fst (new_MoveAI emptyStore)" and ?h = "snd (new_MoveAI emptyStore)"
  let ?m = "modules (contexts ?h (context ?ai))"
  let ?h1 = "run ?ai [AnalyzeCode (js ''struct A {}'')] ?h"
  let ?h2 = "run ?ai [AnalyzeCode (js ''module 0x1::Bar {} module 0x1::Foo {}'')] ?h1"
  have c: "js ''module 0x1::Bar {} '' @ js ''module 0x1::Foo'' @ js '' {}''
           = js ''module 0x1::Bar {} module 0x1::Foo {}''"
    by (simp add: js_def)
  have 1: "new_MoveAI emptyStore = (?ai, ?h)"
    by simp
  have 2: "?h1 = run ?ai [AnalyzeCode (js ''struct A {}'')] ?h"
    by (rule refl)
  have 3: "?h2 = run ?ai [AnalyzeCode (js ''module 0x1::Bar {} module 0x1::Foo {}'')] ?h1"
    by (rule refl)
  have 4: "searchArrives (js ''module 0x1::Bar {} '') (js ''module 0x1::Foo'' @ js '' {}'')"
    by (rule arrives_after_Bar)
  have 5: "js '' {}'' = [] \<or> \<not> isWord (hd (js '' {}''))"
    by (simp add: js_def isWord_def)
  note t = context_arrays_grow_distinct [OF 1 2 3, of "js ''module 0x1::Bar {} ''" "js '' {}''",
      unfolded c]
  have p: "prefix (arrays ?h1 ?m) (arrays ?h2 ?m)"
    using t by (rule conjunct1)
  have d: "distinct (arrays ?h2 ?m)"
    using t by (elim conjE)
  have n: "count_list
         (arrays (analyzeCode ?ai (js ''module 0x1::Bar {} module 0x1::Foo {}'')
                   (analyzeCode ?ai (js ''module 0x1::Bar {} module 0x1::Foo {}'') ?h1)) ?m)
         (js ''0x1::Foo'') = 1"
    using t 4 5 by (elim conjE) (erule mp, rule conjI)
  from 1 4 5 p d n show ?thesis
    by (intro conjI)
qed

section \<open>The transfer function of the Token template\<close>

text \<open>Whatever the parameters, the generated text contains the transfer function.\<close>

lemma token_contains_transfer:
  "str_includes (generateTokenContract p) (js (lines transferLines))"
proof -
  have ne: "tokenHead \<noteq> []" "transferLines \<noteq> []" "tokenTail \<noteq> []"
    by (simp_all add: tokenHead_def transferLines_def tokenTail_def)
  then have "lines (tokenHead @ transferLines @ tokenTail)
             = (lines tokenHead @ [CHR 0x0A]) @ lines transferLines @ (CHR 0x0A # lines tokenTail)"
    by (simp add: lines_append)
  then have "sublist (lines transferLines) (lines (tokenHead @ transferLines @ tokenTail))"
    by (simp only: sublist_appendI)
  then show ?thesis
    by (simp add: generateTokenContract_def Let_def str_includes_sublist sublist_append sublist_js)
qed

text \<open>
  A transfer of more than the sender holds aborts with the insufficient-balance code. A
  transfer to another account that already has a balance debits the sender and credits
  the recipient, unless the credit overflows. A transfer to an account without a balance
  always aborts: the function then calls \<^verbatim>\<open>move_to\<close> with the sender's signer, whose
  address already holds a balance.
\<close>

lemma transfer_insufficient_balance:
  assumes "g from = Some b" and "value b < amount"
  shows "transfer from to amount g = Inl (Abort E_INSUFFICIENT_BALANCE)"
  using assms by (simp add: transfer_def Let_def not_le)

lemma transfer_existing_recipient:
  assumes "g from = Some b" and "g to = Some c" and "from \<noteq> to"
    and "amount \<le> value b" and "uint (value c) + uint amount < 2 ^ 64"
  shows "transfer from to amount g
         = Inr (g(from \<mapsto> b\<lparr>value := value b - amount\<rparr>, to \<mapsto> c\<lparr>value := value c + amount\<rparr>))"
  using assms by (simp add: transfer_def Let_def not_le)

lemma transfer_new_recipient_aborts:
  assumes "g to = None"
  shows "isl (transfer from to amount g)"
  using assms by (auto simp: transfer_def move_to_def Let_def split: option.splits)

text \<open>
  C1. The claim asks that the first transfer to an account without a balance creates
  the balance under the recipient's account and credits it. The generated function does
  not: with a sender at address 1 holding 10 and no balance at address 2, a transfer of 5
  aborts with the resource-already-exists error of \<^verbatim>\<open>move_to\<close>.
\<close>

theorem transfer_first_transfer_aborts:
  "str_includes (generateTokenContract p) (js (lines transferLines))
   \<and> transfer 1 2 5 [1 \<mapsto> \<lparr>value = 10\<rparr>] = Inl RESOURCE_ALREADY_EXISTS"
  by (simp add: token_contains_transfer transfer_def move_to_def Let_def)

end
